theory Spec2Isabelle
  imports Complex_Main
begin

section \<open>Resolution engine: \<open>utils/music_utils.py\<close>\<close>

text \<open>
  The extractor hands back a dictionary. Only four of its keys are read by the engine;
  a field is \<open>None\<close> when the key is absent. A key that is present holds a string.
\<close>

record info =
  info_url :: "string option"
  info_title :: "string option"
  info_thumbnail :: "string option"
  info_webpage_url :: "string option"

text \<open>
  The dictionary that \<open>search_song\<close> and \<open>get_audio_source\<close> return, and that the
  playback queue stores. \<open>url\<close> and \<open>thumbnail\<close> are read with \<open>.get\<close>, so \<open>None\<close>
  stands for a missing key as well as for the value \<open>None\<close>.
\<close>

record descriptor =
  url :: "string option"
  title :: string
  thumbnail :: "string option"
  webpage_url :: string

text \<open>Python truthiness of an optional string: \<open>None\<close> and the empty string are false.\<close>

fun truthy :: "string option \<Rightarrow> bool" where
  "truthy None = False"
| "truthy (Some u) = (u \<noteq> [])"

text \<open>
  The fields of \<open>YTDLSource\<close>. Time is \<open>time.time()\<close>, seconds as a real number.
  \<open>download_queue\<close> is the \<open>PriorityQueue\<close> built by \<open>__init__\<close>; the process pool and
  the lock are not data of the model (the lock only guards the two short sections
  that \<open>extract_info_begin\<close> and \<open>extract_info_end\<close> run without suspension).
\<close>

record ytdl =
  download_queue :: "(int \<times> string) list"
  url_cache :: "string \<rightharpoonup> string"
  cache_expiry :: "string \<rightharpoonup> real"
  download_in_progress :: "string set"

definition cache_duration :: real where
  "cache_duration = 3600"

definition init_ytdl :: ytdl where
  "init_ytdl = \<lparr>download_queue = [], url_cache = Map.empty, cache_expiry = Map.empty,
     download_in_progress = {}\<rparr>"

text \<open>
  \<open>get_cached_url\<close> at time \<open>now\<close>. It returns the state as well: the method reads
  \<open>self\<close> and assigns nothing.
\<close>

definition get_cached_url :: "ytdl \<Rightarrow> string \<Rightarrow> real \<Rightarrow> string option \<times> ytdl" where
  "get_cached_url s query now =
     (if query \<in> dom (url_cache s)
         \<and> now < (case cache_expiry s query of Some e \<Rightarrow> e | None \<Rightarrow> 0)
      then (url_cache s query, s)
      else (None, s))"

text \<open>
  What awaiting the pool gives back: the value of \<open>extract_info_sync\<close> (which turns every
  exception of the extractor into \<open>None\<close>), or an exception raised at the \<open>await\<close>
  itself: a broken pool, or the cancellation of the awaiting task (which is what a
  caller's timeout does to it).
\<close>

datatype await_exn = ExecutorError | CancelledError

datatype pool_outcome = Done "info option" | Failed await_exn

datatype 'a outcome = Returns 'a | Raises await_exn

text \<open>Lines 55 to 57 of \<open>extract_info\<close>: the only place that writes the cache.\<close>

definition cache_put :: "ytdl \<Rightarrow> string \<Rightarrow> info option \<Rightarrow> real \<Rightarrow> ytdl" where
  "cache_put s query got now =
     (case got of
        None \<Rightarrow> s
      | Some i \<Rightarrow>
          (case info_url i of
             None \<Rightarrow> s
           | Some u \<Rightarrow> s\<lparr>url_cache := (url_cache s)(query \<mapsto> u),
                          cache_expiry := (cache_expiry s)(query \<mapsto> now + cache_duration)\<rparr>))"

text \<open>
  \<open>extract_info\<close> has one suspension point, the \<open>await\<close> on the executor. The part
  before it is \<open>extract_info_begin\<close>: it answers \<open>None\<close> in the first component when the
  call returns \<open>None\<close> at once, and \<open>Some job\<close> when it hands \<open>job\<close> to the pool. The job is
  \<open>extract_info_sync\<close> applied to the query and the fixed options, so the query stands
  for it. The arguments \<open>download\<close> and \<open>priority\<close> occur nowhere in the body.
\<close>

definition extract_info_begin :: "ytdl \<Rightarrow> string \<Rightarrow> bool \<Rightarrow> int \<Rightarrow> string option \<times> ytdl" where
  "extract_info_begin s query download priority =
     (if query \<in> download_in_progress s then (None, s)
      else (Some query, s\<lparr>download_in_progress := insert query (download_in_progress s)\<rparr>))"

text \<open>The part after the \<open>await\<close>, with the \<open>finally\<close> block, at time \<open>now\<close>.\<close>

definition extract_info_end :: "ytdl \<Rightarrow> string \<Rightarrow> pool_outcome \<Rightarrow> real \<Rightarrow> info option outcome \<times> ytdl" where
  "extract_info_end s query res now =
     (case res of
        Done got \<Rightarrow>
          (let s1 = cache_put s query got now
           in (Returns got, s1\<lparr>download_in_progress := download_in_progress s1 - {query}\<rparr>))
      | Failed e \<Rightarrow> (Raises e, s\<lparr>download_in_progress := download_in_progress s - {query}\<rparr>))"

text \<open>
  A call that nothing interleaves with. The third component lists the jobs the call
  handed to the pool.
\<close>

definition extract_info ::
  "ytdl \<Rightarrow> string \<Rightarrow> bool \<Rightarrow> int \<Rightarrow> pool_outcome \<Rightarrow> real \<Rightarrow> info option outcome \<times> ytdl \<times> string list" where
  "extract_info s query download priority res now =
     (case extract_info_begin s query download priority of
        (None, s1) \<Rightarrow> (Returns None, s1, [])
      | (Some job, s1) \<Rightarrow>
          (case extract_info_end s1 query res now of (r, s2) \<Rightarrow> (r, s2, [job])))"

text \<open>
  \<open>search_song\<close>: \<open>except Exception\<close> catches an executor error and the \<open>KeyError\<close> of a
  missing \<open>webpage_url\<close> or \<open>title\<close>; a cancellation is not an \<open>Exception\<close> and passes.
\<close>

definition search_song ::
  "ytdl \<Rightarrow> string \<Rightarrow> int \<Rightarrow> pool_outcome \<Rightarrow> real \<Rightarrow> descriptor option outcome \<times> ytdl \<times> string list" where
  "search_song s search_query priority res now =
     (case extract_info s (''ytsearch1:'' @ search_query) False priority res now of
        (Raises CancelledError, s1, js) \<Rightarrow> (Raises CancelledError, s1, js)
      | (Raises ExecutorError, s1, js) \<Rightarrow> (Returns None, s1, js)
      | (Returns None, s1, js) \<Rightarrow> (Returns None, s1, js)
      | (Returns (Some i), s1, js) \<Rightarrow>
          (case (info_webpage_url i, info_title i) of
             (Some w, Some t) \<Rightarrow>
               (Returns (Some \<lparr>url = info_url i, title = t, thumbnail = info_thumbnail i,
                   webpage_url = w\<rparr>), s1, js)
           | _ \<Rightarrow> (Returns None, s1, js)))"

text \<open>
  \<open>get_audio_source\<close>: the cache is read at \<open>now\<close>; a pool result arrives at \<open>done_at\<close>.
\<close>

definition get_audio_source ::
  "ytdl \<Rightarrow> string \<Rightarrow> int \<Rightarrow> pool_outcome \<Rightarrow> real \<Rightarrow> real \<Rightarrow> descriptor option outcome \<times> ytdl \<times> string list" where
  "get_audio_source s page priority res now done_at =
     (case get_cached_url s page now of
        (cached_url, s0) \<Rightarrow>
          if truthy cached_url
          then (Returns (Some \<lparr>url = cached_url, title = ''Unknown'', thumbnail = None,
                   webpage_url = page\<rparr>), s0, [])
          else
            (case extract_info s0 page False priority res done_at of
               (Raises CancelledError, s1, js) \<Rightarrow> (Raises CancelledError, s1, js)
             | (Raises ExecutorError, s1, js) \<Rightarrow> (Returns None, s1, js)
             | (Returns None, s1, js) \<Rightarrow> (Returns None, s1, js)
             | (Returns (Some i), s1, js) \<Rightarrow>
                 (Returns (Some \<lparr>url = info_url i,
                     title = (case info_title i of Some t \<Rightarrow> t | None \<Rightarrow> ''Unknown''),
                     thumbnail = info_thumbnail i,
                     webpage_url = (case info_webpage_url i of Some w \<Rightarrow> w | None \<Rightarrow> page)\<rparr>),
                  s1, js)))"

text \<open>\<open>prefetch_song\<close> always asks with priority 10.\<close>

definition prefetch_song ::
  "ytdl \<Rightarrow> string \<Rightarrow> pool_outcome \<Rightarrow> real \<Rightarrow> bool outcome \<times> ytdl \<times> string list" where
  "prefetch_song s page res now =
     (case extract_info s page False 10 res now of
        (Raises CancelledError, s1, js) \<Rightarrow> (Raises CancelledError, s1, js)
      | (Raises ExecutorError, s1, js) \<Rightarrow> (Returns False, s1, js)
      | (Returns _, s1, js) \<Rightarrow> (Returns True, s1, js))"

subsection \<open>Interleaved calls of \<open>extract_info\<close>\<close>







subsection \<open>The worker pool\<close>

text \<open>
  \<open>concurrent.futures.ProcessPoolExecutor\<close> keeps the submitted work items in a
  first-in first-out queue and starts the oldest one when a worker is free. A work item
  is what \<open>run_in_executor\<close> was given: here the query.
\<close>

record pool =
  max_workers :: nat
  running :: "string list"
  pending :: "string list"

definition pool_submit :: "pool \<Rightarrow> string \<Rightarrow> pool" where
  "pool_submit p job =
     (if length (running p) < max_workers p then p\<lparr>running := running p @ [job]\<rparr>
      else p\<lparr>pending := pending p @ [job]\<rparr>)"

definition pool_complete :: "pool \<Rightarrow> string \<Rightarrow> pool" where
  "pool_complete p job =
     (if job \<in> set (running p)
      then (case pending p of
              [] \<Rightarrow> p\<lparr>running := remove1 job (running p)\<rparr>
            | nxt # rest \<Rightarrow> p\<lparr>running := remove1 job (running p) @ [nxt], pending := rest\<rparr>)
      else p)"

text \<open>
  A resolve request as a caller makes it: the query and the priority. \<open>request\<close> is the
  first section of \<open>extract_info\<close> together with the pool it submits to; the state is
  the engine and the pool.
\<close>

definition request :: "ytdl \<times> pool \<Rightarrow> string \<times> int \<Rightarrow> ytdl \<times> pool" where
  "request sp r =
     (case extract_info_begin (fst sp) (fst r) False (snd r) of
        (None, s1) \<Rightarrow> (s1, snd sp)
      | (Some job, s1) \<Rightarrow> (s1, pool_submit (snd sp) job))"


section \<open>Session manager: \<open>utils/voice_manager.py\<close>\<close>

text \<open>
  A voice client as the manager sees it: its guild, what \<open>is_connected()\<close> answers,
  whether it has a \<open>ws\<close> that is set, and whether its \<open>disconnect\<close> raises.
\<close>

record handle =
  hid :: nat
  guild_id :: nat
  is_connected :: bool
  has_ws :: bool
  disconnect_raises :: bool

text \<open>
  What one call of \<open>channel.connect\<close> does: it returns a voice client or raises. For a
  \<open>ClientException\<close> the flag is the value of the test
  \<open>"already connected" in str(e).lower()\<close>.
\<close>

datatype connect_result =
    Connected handle
  | ConnectionClosed int
  | ClientException bool
  | TimeoutError
  | OtherError

datatype timer_kind = SessionRefresh | Keepalive | Inactivity

text \<open>
  What the manager does to the outside, in order: \<open>Backoff a d\<close> is the
  \<open>asyncio.sleep(d)\<close> of line 124 before attempt \<open>a\<close>, \<open>Sleep d\<close> any other
  \<open>asyncio.sleep(d)\<close>, \<open>Connect a\<close> the call of \<open>channel.connect\<close> in attempt \<open>a\<close>, and
  \<open>Disconnect h force\<close> a call of \<open>disconnect\<close> on the client numbered \<open>h\<close>.
\<close>

datatype effect =
    Sleep real
  | Backoff nat real
  | Connect nat
  | Disconnect nat bool

text \<open>
  The fields of \<open>VoiceConnectionManager\<close> (without the leading underscore), and the
  surroundings it acts on: \<open>bot.voice_clients\<close>, the clock that \<open>datetime.now()\<close> reads
  (in seconds), the tasks of the event loop that were created and have neither been
  cancelled nor ended (\<open>alive\<close>, with the kind and the guild of each), the number of the
  next task, and the effects so far. Every operation on a guild runs under that guild's
  lock, so the operations of one guild do not interleave.
\<close>

record vm =
  connections :: "nat \<rightharpoonup> handle"
  connection_attempts :: "nat \<rightharpoonup> real"
  cleanup_tasks :: "nat \<rightharpoonup> nat"
  keepalive_tasks :: "nat \<rightharpoonup> nat"
  inactivity_tasks :: "nat \<rightharpoonup> nat"
  voice_clients :: "handle list"
  clock :: real
  alive :: "nat \<rightharpoonup> timer_kind \<times> nat"
  next_task :: nat
  trace :: "effect list"

definition init_vm :: vm where
  "init_vm = \<lparr>connections = Map.empty, connection_attempts = Map.empty,
     cleanup_tasks = Map.empty, keepalive_tasks = Map.empty, inactivity_tasks = Map.empty,
     voice_clients = [], clock = 0, alive = Map.empty, next_task = 0, trace = []\<rparr>"

text \<open>\<open>asyncio.sleep\<close>, \<open>asyncio.create_task\<close> and \<open>task.cancel()\<close>.\<close>

definition sleep :: "real \<Rightarrow> vm \<Rightarrow> vm" where
  "sleep d s = s\<lparr>clock := clock s + d, trace := trace s @ [Sleep d]\<rparr>"

definition create_task :: "timer_kind \<Rightarrow> nat \<Rightarrow> vm \<Rightarrow> nat \<times> vm" where
  "create_task k g s =
     (next_task s, s\<lparr>alive := (alive s)(next_task s \<mapsto> (k, g)), next_task := Suc (next_task s)\<rparr>)"

definition cancel :: "nat \<Rightarrow> vm \<Rightarrow> vm" where
  "cancel tid s = s\<lparr>alive := (alive s)(tid := None)\<rparr>"

text \<open>
  \<open>vc.disconnect(force=...)\<close>: the first component tells whether it raised. A client
  that disconnects leaves \<open>bot.voice_clients\<close>.
\<close>

definition vc_disconnect :: "handle \<Rightarrow> bool \<Rightarrow> vm \<Rightarrow> bool \<times> vm" where
  "vc_disconnect vc force s =
     (if disconnect_raises vc then (True, s\<lparr>trace := trace s @ [Disconnect (hid vc) force]\<rparr>)
      else (False, s\<lparr>voice_clients := filter (\<lambda>v. hid v \<noteq> hid vc) (voice_clients s),
                      trace := trace s @ [Disconnect (hid vc) force]\<rparr>))"

text \<open>The loop of \<open>cleanup_stale_connection\<close> over a copy of \<open>bot.voice_clients\<close>.\<close>

fun disconnect_stale :: "nat \<Rightarrow> handle list \<Rightarrow> vm \<Rightarrow> vm" where
  "disconnect_stale g [] s = s"
| "disconnect_stale g (vc # vcs) s =
     disconnect_stale g vcs (if guild_id vc = g then snd (vc_disconnect vc True s) else s)"

definition cleanup_stale_connection :: "vm \<Rightarrow> nat \<Rightarrow> vm" where
  "cleanup_stale_connection s g =
     (let s1 = disconnect_stale g (voice_clients s) s;
          s2 = s1\<lparr>connections := (connections s1)(g := None)\<rparr>;
          s3 = (case cleanup_tasks s2 g of
                  None \<Rightarrow> s2
                | Some tid \<Rightarrow> (cancel tid s2)\<lparr>cleanup_tasks := (cleanup_tasks s2)(g := None)\<rparr>);
          s4 = (case keepalive_tasks s3 g of
                  None \<Rightarrow> s3
                | Some tid \<Rightarrow> (cancel tid s3)\<lparr>keepalive_tasks := (keepalive_tasks s3)(g := None)\<rparr>);
          s5 = (case inactivity_tasks s4 g of
                  None \<Rightarrow> s4
                | Some tid \<Rightarrow> (cancel tid s4)\<lparr>inactivity_tasks := (inactivity_tasks s4)(g := None)\<rparr>)
      in sleep 2 s5)"

definition should_retry_connection :: "vm \<Rightarrow> nat \<Rightarrow> bool" where
  "should_retry_connection s g =
     (case connection_attempts s g of
        None \<Rightarrow> True
      | Some last_attempt \<Rightarrow> clock s - last_attempt > 10)"

text \<open>\<open>validate_session\<close>; \<open>None\<close> is Python's \<open>None\<close>.\<close>

fun validate_session :: "handle option \<Rightarrow> bool" where
  "validate_session None = False"
| "validate_session (Some vc) = (if \<not> is_connected vc then False else has_ws vc)"

text \<open>
  Lines 144 to 156 of \<open>connect_with_retry\<close>: the session-refresh task and the keepalive
  task are started, each after the cancellation of the one registered before.
\<close>

definition start_session_timers :: "vm \<Rightarrow> nat \<Rightarrow> vm" where
  "start_session_timers s g =
     (let s1 = (case cleanup_tasks s g of None \<Rightarrow> s | Some tid \<Rightarrow> cancel tid s);
          (t1, s2) = create_task SessionRefresh g s1;
          s3 = s2\<lparr>cleanup_tasks := (cleanup_tasks s2)(g \<mapsto> t1)\<rparr>;
          s4 = (case keepalive_tasks s3 g of None \<Rightarrow> s3 | Some tid \<Rightarrow> cancel tid s3);
          (t2, s5) = create_task Keepalive g s4
      in s5\<lparr>keepalive_tasks := (keepalive_tasks s5)(g \<mapsto> t2)\<rparr>)"

text \<open>The delay slept before an attempt: none before the first one.\<close>

definition backoff_time :: "real \<Rightarrow> nat \<Rightarrow> real option" where
  "backoff_time backoff_base attempt =
     (if attempt > 0 then Some (min (backoff_base ^ attempt) 30) else None)"

text \<open>
  The body of the retry loop for one value of \<open>attempt\<close>. The first component is
  \<open>Some vc\<close> when the body returns \<open>vc\<close> from \<open>connect_with_retry\<close>, and \<open>None\<close> when the
  loop goes on. An exception of \<open>disconnect\<close> on a client that failed validation is
  caught by the handlers of the same \<open>try\<close> and the loop goes on.
\<close>

definition attempt_body ::
  "(nat \<Rightarrow> connect_result) \<Rightarrow> nat \<Rightarrow> real \<Rightarrow> nat \<Rightarrow> nat \<Rightarrow> vm \<Rightarrow> handle option \<times> vm" where
  "attempt_body transport max_retries backoff_base g attempt s =
     (let s1 = s\<lparr>connection_attempts := (connection_attempts s)(g \<mapsto> clock s)\<rparr>;
          s2 = (case backoff_time backoff_base attempt of
                  None \<Rightarrow> s1
                | Some d \<Rightarrow> s1\<lparr>clock := clock s1 + d, trace := trace s1 @ [Backoff attempt d]\<rparr>);
          s3 = s2\<lparr>trace := trace s2 @ [Connect attempt]\<rparr>
      in case transport attempt of
           Connected voice_client \<Rightarrow>
             (let s4 = sleep 1 (s3\<lparr>voice_clients := voice_clients s3 @ [voice_client]\<rparr>)
              in if validate_session (Some voice_client)
                 then (Some voice_client,
                       start_session_timers
                         (s4\<lparr>connections := (connections s4)(g \<mapsto> voice_client)\<rparr>) g)
                 else (None, snd (vc_disconnect voice_client True s4)))
         | ConnectionClosed code \<Rightarrow>
             (if code = 4006
              then (if attempt < max_retries - 1 then (None, sleep 15 s3) else (None, s3))
              else (None, s3))
         | ClientException already_connected \<Rightarrow>
             (if already_connected
              then (case find (\<lambda>vc. guild_id vc = g) (voice_clients s3) of
                      None \<Rightarrow> (None, s3)
                    | Some vc \<Rightarrow>
                        if validate_session (Some vc)
                        then (Some vc, s3\<lparr>connections := (connections s3)(g \<mapsto> vc)\<rparr>)
                        else (None, cleanup_stale_connection s3 g))
              else (None, s3))
         | TimeoutError \<Rightarrow> (None, s3)
         | OtherError \<Rightarrow> (None, s3))"

text \<open>\<open>for attempt in range(max_retries)\<close>, from \<open>attempt\<close> on.\<close>

function connect_loop ::
  "(nat \<Rightarrow> connect_result) \<Rightarrow> nat \<Rightarrow> real \<Rightarrow> nat \<Rightarrow> nat \<Rightarrow> vm \<Rightarrow> handle option \<times> vm" where
  "connect_loop transport max_retries backoff_base g attempt s =
     (if attempt < max_retries
      then (case attempt_body transport max_retries backoff_base g attempt s of
              (Some vc, s1) \<Rightarrow> (Some vc, s1)
            | (None, s1) \<Rightarrow> connect_loop transport max_retries backoff_base g (Suc attempt) s1)
      else (None, s))"
  by pat_completeness auto
termination
  by (relation "measure (\<lambda>(transport, max_retries, backoff_base, g, attempt, s). max_retries - attempt)")
    auto

declare connect_loop.simps [simp del]

text \<open>
  \<open>connect_with_retry\<close> for the guild \<open>g\<close> of the channel; the defaults of the source
  are \<open>max_retries = 3\<close> and \<open>backoff_base = 2\<close>.
\<close>

definition connect_with_retry ::
  "vm \<Rightarrow> nat \<Rightarrow> (nat \<Rightarrow> connect_result) \<Rightarrow> nat \<Rightarrow> real \<Rightarrow> handle option \<times> vm" where
  "connect_with_retry s g transport max_retries backoff_base =
     (if \<not> should_retry_connection s g then (None, s)
      else connect_loop transport max_retries backoff_base g 0 (cleanup_stale_connection s g))"

definition start_inactivity_timer :: "vm \<Rightarrow> nat \<Rightarrow> vm" where
  "start_inactivity_timer s g =
     (let s1 = (case inactivity_tasks s g of None \<Rightarrow> s | Some tid \<Rightarrow> cancel tid s);
          (t, s2) = create_task Inactivity g s1
      in s2\<lparr>inactivity_tasks := (inactivity_tasks s2)(g \<mapsto> t)\<rparr>)"

definition cancel_inactivity_timer :: "vm \<Rightarrow> nat \<Rightarrow> vm" where
  "cancel_inactivity_timer s g =
     (case inactivity_tasks s g of
        None \<Rightarrow> s
      | Some tid \<Rightarrow> (cancel tid s)\<lparr>inactivity_tasks := (inactivity_tasks s)(g := None)\<rparr>)"

definition disconnect :: "vm \<Rightarrow> nat \<Rightarrow> vm" where
  "disconnect s g =
     (case connections s g of
        None \<Rightarrow> cleanup_stale_connection s g
      | Some voice_client \<Rightarrow> cleanup_stale_connection (snd (vc_disconnect voice_client False s)) g)"

text \<open>
  \<open>move_to\<close>: \<open>move_ok\<close> tells whether \<open>voice_client.move_to\<close> returned without raising.
\<close>

definition move_to ::
  "vm \<Rightarrow> nat \<Rightarrow> bool \<Rightarrow> (nat \<Rightarrow> connect_result) \<Rightarrow> handle option \<times> vm" where
  "move_to s g move_ok transport =
     (if validate_session (connections s g)
      then (if move_ok then (connections s g, s)
            else connect_with_retry (cleanup_stale_connection s g) g transport 3 2)
      else connect_with_retry s g transport 3 2)"

subsection \<open>Runs of the manager\<close>

text \<open>
  What can happen to a manager, one operation after the other: the public operations,
  time passing, and a timer task ending by itself (its loop ends, or it returns), after
  which it is no longer alive while its registration stays. The tasks call
  \<open>cleanup_stale_connection\<close> and \<open>disconnect\<close> themselves, which are operations of the
  list.
\<close>

datatype vm_op =
    ConnectWithRetry nat "nat \<Rightarrow> connect_result" nat real
  | MoveTo nat bool "nat \<Rightarrow> connect_result"
  | StartInactivityTimer nat
  | CancelInactivityTimer nat
  | DisconnectGuild nat
  | CleanupStale nat
  | TaskEnds nat
  | TimePasses real

fun apply_op :: "vm \<Rightarrow> vm_op \<Rightarrow> vm" where
  "apply_op s (ConnectWithRetry g transport max_retries backoff_base) =
     snd (connect_with_retry s g transport max_retries backoff_base)"
| "apply_op s (MoveTo g move_ok transport) = snd (move_to s g move_ok transport)"
| "apply_op s (StartInactivityTimer g) = start_inactivity_timer s g"
| "apply_op s (CancelInactivityTimer g) = cancel_inactivity_timer s g"
| "apply_op s (DisconnectGuild g) = disconnect s g"
| "apply_op s (CleanupStale g) = cleanup_stale_connection s g"
| "apply_op s (TaskEnds tid) = cancel tid s"
| "apply_op s (TimePasses d) = s\<lparr>clock := clock s + d\<rparr>"

definition manager_after :: "vm_op list \<Rightarrow> vm" where
  "manager_after ops = foldl apply_op init_vm ops"

text \<open>The map in which the manager registers the tasks of a kind.\<close>

fun registered :: "timer_kind \<Rightarrow> vm \<Rightarrow> nat \<rightharpoonup> nat" where
  "registered SessionRefresh s = cleanup_tasks s"
| "registered Keepalive s = keepalive_tasks s"
| "registered Inactivity s = inactivity_tasks s"

text \<open>
  Every task that is alive is the one registered for its kind and guild, and every
  registered task number has been given out already.
\<close>

definition timers_ok :: "vm \<Rightarrow> bool" where
  "timers_ok s =
     ((\<forall>tid k g. alive s tid = Some (k, g) \<longrightarrow> registered k s g = Some tid)
      \<and> (\<forall>tid k g. registered k s g = Some tid \<longrightarrow> tid < next_task s))"

text \<open>The part of the effects that are waits before an attempt, and connects.\<close>

fun is_backoff :: "effect \<Rightarrow> bool" where
  "is_backoff (Backoff a d) = True"
| "is_backoff e = False"

fun is_connect :: "effect \<Rightarrow> bool" where
  "is_connect (Connect a) = True"
| "is_connect e = False"

text \<open>A call of \<open>channel.connect\<close> that does not give a usable session.\<close>

fun attempt_fails :: "connect_result \<Rightarrow> bool" where
  "attempt_fails (Connected vc) = (\<not> validate_session (Some vc))"
| "attempt_fails r = True"

text \<open>The fields that \<open>timers_ok\<close> reads.\<close>

definition timer_fields ::
  "vm \<Rightarrow> (nat \<rightharpoonup> timer_kind \<times> nat) \<times> nat \<times> (nat \<rightharpoonup> nat) \<times> (nat \<rightharpoonup> nat) \<times> (nat \<rightharpoonup> nat)" where
  "timer_fields s = (alive s, next_task s, cleanup_tasks s, keepalive_tasks s, inactivity_tasks s)"

text \<open>The conflict that sends the loop to look for an existing client.\<close>

fun already_connected :: "connect_result \<Rightarrow> bool" where
  "already_connected (ClientException b) = b"
| "already_connected r = False"

text \<open>
  The waits before an attempt and the connects among some effects, in order; and what
  one attempt adds to them.
\<close>

definition attempts_in :: "effect list \<Rightarrow> effect list" where
  "attempts_in t = filter (\<lambda>e. is_backoff e \<or> is_connect e) t"

definition attempt_effects :: "real \<Rightarrow> nat \<Rightarrow> effect list" where
  "attempt_effects backoff_base attempt =
     (case backoff_time backoff_base attempt of None \<Rightarrow> [] | Some d \<Rightarrow> [Backoff attempt d])
     @ [Connect attempt]"

section \<open>Playback orchestrator: \<open>cogs/music_improved.py\<close>\<close>

definition MAX_QUEUE_SIZE :: nat where
  "MAX_QUEUE_SIZE = 100"

text \<open>
  \<open>append\<close> on a \<open>collections.deque\<close> built with \<open>maxlen\<close>: the item goes to the right
  end, and when the deque is then longer than \<open>maxlen\<close> the item at the left end is
  discarded.
\<close>

definition deque_append :: "nat \<Rightarrow> 'a list \<Rightarrow> 'a \<Rightarrow> 'a list" where
  "deque_append maxlen q x =
     (let q1 = q @ [x] in if length q1 > maxlen then tl q1 else q1)"

text \<open>
  The exceptions that reach the handler at the end of \<open>play_next\<close>: both ways to a source
  failed, no source, \<open>info['url']\<close> on \<open>None\<close> (line 117), \<open>voice_client.play\<close> raising, and
  the send of the Now Playing message raising (line 128).
\<close>

datatype play_error =
    BothFailed
  | NoSource
  | InfoNotSubscriptable
  | PlayRaised
  | AnnounceRaised

datatype message =
    CouldNotPlay string play_error
  | NowPlaying descriptor
  | Playing string
  | AddedToQueue string
  | CouldNotFind
  | ErrorProcessing

text \<open>
  \<open>Send m\<close> is a message that \<open>ctx.channel.send\<close> delivered, \<open>Reply m\<close> one that
  \<open>interaction.followup.send\<close> delivered; a send that raises delivers nothing.
\<close>

datatype play_event =
    Send message
  | Reply message
  | Play descriptor
  | PrefetchScheduled "descriptor list"
  | TimerStarted
  | TimerCancelled

datatype source = Streamed string | Downloaded string

text \<open>
  What the collaborators answer for one page: the value of \<open>get_audio_source\<close>, whether
  building the FFmpeg source for a stream URL returns, whether
  \<open>audio_downloader.create_audio_source\<close> returns (it returns a source or raises),
  whether \<open>voice_client.play\<close> returns, whether the send of the Now Playing message
  (line 128) returns, and whether the send of the error message (line 134) returns.
\<close>

record resolution =
  stream_info :: "descriptor option"
  stream_source_ok :: bool
  download_ok :: bool
  play_ok :: bool
  announce_ok :: bool
  report_ok :: bool

text \<open>The fields of \<open>VoiceState\<close> that the queue logic uses, and the events it causes.\<close>

record voice_state =
  voice_client :: "handle option"
  current_song :: "descriptor option"
  queue :: "descriptor list"
  last_error :: "play_error option"
  events :: "play_event list"

definition init_voice_state :: voice_state where
  "init_voice_state = \<lparr>voice_client = None, current_song = None, queue = [],
     last_error = None, events = []\<rparr>"

text \<open>
  Lines 77 to 104 of \<open>play_next\<close>: streaming first, the downloader when streaming raises.
\<close>

definition make_source :: "resolution \<Rightarrow> descriptor \<Rightarrow> play_error + source" where
  "make_source r next_song =
     (let streamed =
            (case stream_info r of
               None \<Rightarrow> None
             | Some i \<Rightarrow>
                 (case url i of
                    None \<Rightarrow> None
                  | Some u \<Rightarrow> if u \<noteq> [] \<and> stream_source_ok r then Some (Streamed u) else None));
          src_opt =
            (case streamed of
               Some s \<Rightarrow> Inr (Some s)
             | None \<Rightarrow>
                 if download_ok r then Inr (Some (Downloaded (webpage_url next_song)))
                 else Inl BothFailed)
      in case src_opt of
           Inl e \<Rightarrow> Inl e
         | Inr None \<Rightarrow> Inl NoSource
         | Inr (Some s) \<Rightarrow> Inr s)"

text \<open>
  The \<open>try\<close> block of \<open>play_next\<close> after \<open>popleft\<close>; the first component is the exception
  that its handler catches, if any. Line 117 reads \<open>info['url']\<close>, which raises when
  \<open>info\<close> is \<open>None\<close>; the dictionaries that \<open>get_audio_source\<close> returns all have the key.
  When the send of line 128 raises, the song has been started already.
\<close>

definition try_play :: "resolution \<Rightarrow> descriptor \<Rightarrow> voice_state \<Rightarrow> play_error option \<times> voice_state" where
  "try_play r next_song st =
     (case make_source r next_song of
        Inl e \<Rightarrow> (Some e, st)
      | Inr s \<Rightarrow>
          (let st1 = st\<lparr>current_song := Some next_song, last_error := None,
                        events := events st @ [TimerCancelled]\<rparr>
           in if stream_info r = None then (Some InfoNotSubscriptable, st1)
              else if \<not> play_ok r then (Some PlayRaised, st1)
              else
                (let st2 = st1\<lparr>events := events st1 @ [Play next_song]\<rparr>
                 in if announce_ok r
                    then (None, st2\<lparr>events := events st2 @ [Send (NowPlaying next_song)]\<rparr>)
                    else (Some AnnounceRaised, st2))))"

text \<open>
  \<open>play_next\<close>. The first component tells whether an exception leaves the function: the
  handler sends the error message before it goes on to the next song, outside any
  \<open>try\<close>, so when that send raises the function ends there.
\<close>

function play_next :: "(string \<Rightarrow> resolution) \<Rightarrow> voice_state \<Rightarrow> bool \<times> voice_state" where
  "play_next env st =
     (case queue st of
        [] \<Rightarrow> (False, if voice_client st \<noteq> None then st\<lparr>events := events st @ [TimerStarted]\<rparr>
                       else st)
      | next_song # rest \<Rightarrow>
          if voice_client st = None then (False, st)
          else
            (let st1 = st\<lparr>queue := rest, events := events st @ [PrefetchScheduled (take 3 rest)]\<rparr>
             in case try_play (env (webpage_url next_song)) next_song st1 of
                  (None, st2) \<Rightarrow> (False, st2)
                | (Some e, st2) \<Rightarrow>
                    (let st3 = st2\<lparr>last_error := Some e\<rparr>
                     in if \<not> report_ok (env (webpage_url next_song)) then (True, st3)
                        else
                          (let st4 = st3\<lparr>events := events st3
                                        @ [Send (CouldNotPlay (title next_song) e)]\<rparr>
                           in if queue st4 \<noteq> [] then play_next env st4 else (False, st4)))))"
  by pat_completeness auto
termination
  by (relation "measure (\<lambda>(env, st). length (queue st))")
    (auto simp: try_play_def Let_def split: sum.splits if_splits)

declare play_next.simps [simp del]

text \<open>
  A reply to the requester inside the \<open>try\<close> of \<open>process_songs\<close>, where \<open>reply_ok m\<close> tells
  whether \<open>interaction.followup.send\<close> returns for the message \<open>m\<close>. When it raises, the
  handler of line 169 sends the error reply; when that raises too, the outer handler only
  logs.
\<close>

definition on_error :: "(message \<Rightarrow> bool) \<Rightarrow> voice_state \<Rightarrow> voice_state" where
  "on_error reply_ok st =
     (if reply_ok ErrorProcessing then st\<lparr>events := events st @ [Reply ErrorProcessing]\<rparr> else st)"

definition reply :: "(message \<Rightarrow> bool) \<Rightarrow> message \<Rightarrow> voice_state \<Rightarrow> voice_state" where
  "reply reply_ok m st =
     (if reply_ok m then st\<lparr>events := events st @ [Reply m]\<rparr> else on_error reply_ok st)"

text \<open>
  The body of the loop of \<open>process_songs\<close> for one request, from line 155 on: \<open>song\<close> is
  what \<open>search_song\<close> returned and \<open>playing\<close> what \<open>state.is_playing()\<close> answers on line 161.
  An exception that leaves \<open>play_next\<close> is caught by the handler of line 169.
\<close>

definition process_request ::
  "(string \<Rightarrow> resolution) \<Rightarrow> (message \<Rightarrow> bool) \<Rightarrow> descriptor option \<Rightarrow> bool \<Rightarrow> voice_state
     \<Rightarrow> voice_state" where
  "process_request env reply_ok song playing st =
     (case song of
        None \<Rightarrow> reply reply_ok CouldNotFind st
      | Some sg \<Rightarrow>
          if truthy (url sg)
          then
            (let st1 = st\<lparr>queue := deque_append MAX_QUEUE_SIZE (queue st) sg,
                          events := events st @ [TimerCancelled]\<rparr>
             in if \<not> playing
                then (case play_next env st1 of
                        (True, st2) \<Rightarrow> on_error reply_ok st2
                      | (False, st2) \<Rightarrow> reply reply_ok (Playing (title sg)) st2)
                else reply reply_ok (AddedToQueue (title sg))
                       (st1\<lparr>events := events st1 @ [PrefetchScheduled (take 3 (queue st1))]\<rparr>))
          else reply reply_ok CouldNotFind st)"

text \<open>The replies among some events, in order.\<close>

fun reply_of :: "play_event \<Rightarrow> message list" where
  "reply_of (Reply m) = [m]"
| "reply_of e = []"

definition replies :: "play_event list \<Rightarrow> message list" where
  "replies evs = concat (map reply_of evs)"

text \<open>
  Streaming a page fails when \<open>get_audio_source\<close> gives nothing or no usable URL, or
  when the FFmpeg source cannot be built. A page fails entirely when streaming fails and
  the downloader fails too.
\<close>

definition stream_fails :: "resolution \<Rightarrow> bool" where
  "stream_fails r =
     (\<not> ((case stream_info r of None \<Rightarrow> False | Some i \<Rightarrow> truthy (url i)) \<and> stream_source_ok r))"

definition fails_entirely :: "resolution \<Rightarrow> bool" where
  "fails_entirely r = (stream_fails r \<and> \<not> download_ok r)"

definition streams_and_plays :: "resolution \<Rightarrow> bool" where
  "streams_and_plays r = (\<not> stream_fails r \<and> play_ok r)"

section \<open>Concrete data for the closed theorems\<close>

definition ex_info :: info where
  "ex_info = \<lparr>info_url = Some ''http://cdn/a'', info_title = Some ''Song A'',
     info_thumbnail = Some ''http://img/a'', info_webpage_url = Some ''http://page/a''\<rparr>"

definition ex_info_empty_url :: info where
  "ex_info_empty_url = \<lparr>info_url = Some '''', info_title = Some ''Song A'',
     info_thumbnail = Some ''http://img/a'', info_webpage_url = Some ''http://page/a''\<rparr>"

text \<open>\<open>VoiceState\<close> builds its engine with four workers.\<close>

definition idle_pool :: pool where
  "idle_pool = \<lparr>max_workers = 4, running = [], pending = []\<rparr>"

text \<open>Four requests fill the pool.\<close>

definition busy :: "ytdl \<times> pool" where
  "busy = foldl request (init_ytdl, idle_pool) [(''w'', 1), (''x'', 2), (''y'', 5), (''z'', 6)]"

text \<open>The engine after one search, and after one direct resolve that cached an empty URL.\<close>

definition after_search :: ytdl where
  "after_search = fst (snd (search_song init_ytdl ''song'' 1 (Done (Some ex_info)) 0))"

definition after_empty_url :: ytdl where
  "after_empty_url =
     fst (snd (get_audio_source init_ytdl ''http://page/a'' 0 (Done (Some ex_info_empty_url)) 0 0))"

definition after_resolve :: ytdl where
  "after_resolve =
     fst (snd (get_audio_source init_ytdl ''http://page/a'' 0 (Done (Some ex_info)) 0 0))"

text \<open>A client of guild 7 that passes validation, and two transports.\<close>

definition good_handle :: handle where
  "good_handle = \<lparr>hid = 1, guild_id = 7, is_connected = True, has_ws = True,
     disconnect_raises = False\<rparr>"

definition always_connects :: "nat \<Rightarrow> connect_result" where
  "always_connects attempt = Connected good_handle"

definition third_time_lucky :: "nat \<Rightarrow> connect_result" where
  "third_time_lucky attempt = (if attempt < 2 then TimeoutError else Connected good_handle)"

text \<open>The manager after a first successful connect for guild 7.\<close>

definition joined :: vm where
  "joined = snd (connect_with_retry init_vm 7 always_connects 3 2)"

definition joined_idle_ops :: "vm_op list" where
  "joined_idle_ops = [ConnectWithRetry 7 always_connects 3 2, StartInactivityTimer 7]"

text \<open>Three songs, and collaborators for which the first cannot be played at all.\<close>

definition song_a :: descriptor where
  "song_a = \<lparr>url = Some ''http://cdn/a'', title = ''Song A'', thumbnail = None,
     webpage_url = ''http://page/a''\<rparr>"

definition song_b :: descriptor where
  "song_b = \<lparr>url = Some ''http://cdn/b'', title = ''Song B'', thumbnail = None,
     webpage_url = ''http://page/b''\<rparr>"

definition song_c :: descriptor where
  "song_c = \<lparr>url = Some ''http://cdn/c'', title = ''Song C'', thumbnail = None,
     webpage_url = ''http://page/c''\<rparr>"

definition broken :: resolution where
  "broken = \<lparr>stream_info = None, stream_source_ok = False, download_ok = False, play_ok = True,
     announce_ok = True, report_ok = True\<rparr>"

definition ex_env :: "string \<Rightarrow> resolution" where
  "ex_env page =
     (if page = ''http://page/a'' then broken
      else \<lparr>stream_info = Some \<lparr>url = Some (''http://cdn/'' @ drop 12 page), title = ''Unknown'',
                thumbnail = None, webpage_url = page\<rparr>,
             stream_source_ok = True, download_ok = True, play_ok = True,
             announce_ok = True, report_ok = True\<rparr>)"

text \<open>The same collaborators, except that the channel refuses the error message.\<close>

definition muted_env :: "string \<Rightarrow> resolution" where
  "muted_env page = (ex_env page)\<lparr>report_ok := False\<rparr>"

text \<open>A requester who receives every reply.\<close>

definition always_delivered :: "message \<Rightarrow> bool" where
  "always_delivered m = True"

definition three_queued :: voice_state where
  "three_queued = init_voice_state\<lparr>voice_client := Some good_handle,
     queue := [song_a, song_b, song_c]\<rparr>"

definition full_queue :: voice_state where
  "full_queue = init_voice_state\<lparr>voice_client := Some good_handle,
     queue := song_a # replicate 99 song_b\<rparr>"

section \<open>Properties of the resolution engine\<close>









lemma foldl_request_priority:
  "map fst rs' = map fst rs \<Longrightarrow> foldl request sp rs' = foldl request sp rs"
proof (induction rs arbitrary: rs' sp)
  case Nil
  then show ?case by simp
next
  case (Cons r rs)
  then obtain r' rest where rs': "rs' = r' # rest" and k: "fst r' = fst r"
    and m: "map fst rest = map fst rs" by auto
  have "request sp r' = request sp r"
    using k by (simp add: request_def extract_info_begin_def)
  then show ?case using rs' Cons.IH [OF m] by simp
qed

lemma foldl_request_saturated:
  "length (running p) = max_workers p \<Longrightarrow> distinct (map fst rs) \<Longrightarrow>
   set (map fst rs) \<inter> download_in_progress s = {} \<Longrightarrow>
   snd (foldl request (s, p) rs) = p\<lparr>pending := pending p @ map fst rs\<rparr>
   \<and> download_in_progress (fst (foldl request (s, p) rs)) = download_in_progress s \<union> set (map fst rs)"
proof (induction rs rule: rev_induct)
  case Nil
  then show ?case by simp
next
  case (snoc r rs)
  then show ?case
    by (auto simp: request_def extract_info_begin_def pool_submit_def)
qed

lemma busy_eq:
  "busy = (init_ytdl\<lparr>download_in_progress := {''w'', ''x'', ''y'', ''z''}\<rparr>,
     \<lparr>max_workers = 4, running = [''w'', ''x'', ''y'', ''z''], pending = []\<rparr>)"
  by (auto simp add: busy_def request_def extract_info_begin_def pool_submit_def init_ytdl_def
      idle_pool_def)

lemma after_search_eq:
  "after_search = init_ytdl\<lparr>url_cache := [''ytsearch1:song'' \<mapsto> ''http://cdn/a''],
     cache_expiry := [''ytsearch1:song'' \<mapsto> 3600]\<rparr>"
  by (simp add: after_search_def search_song_def extract_info_def extract_info_begin_def
      extract_info_end_def cache_put_def init_ytdl_def ex_info_def cache_duration_def)

lemma after_empty_url_eq:
  "after_empty_url = init_ytdl\<lparr>url_cache := [''http://page/a'' \<mapsto> ''''],
     cache_expiry := [''http://page/a'' \<mapsto> 3600]\<rparr>"
  by (simp add: after_empty_url_def get_audio_source_def get_cached_url_def extract_info_def
      extract_info_begin_def extract_info_end_def cache_put_def init_ytdl_def
      ex_info_empty_url_def cache_duration_def)

lemma after_resolve_eq:
  "after_resolve = init_ytdl\<lparr>url_cache := [''http://page/a'' \<mapsto> ''http://cdn/a''],
     cache_expiry := [''http://page/a'' \<mapsto> 3600]\<rparr>"
  by (simp add: after_resolve_def get_audio_source_def get_cached_url_def extract_info_def
      extract_info_begin_def extract_info_end_def cache_put_def init_ytdl_def
      ex_info_def cache_duration_def)

subsection \<open>The cache and its expiry\<close>

text \<open>
  Claim C2, as the code has it. Let the cache be written for key \<open>k\<close> at time \<open>t0\<close> with
  a result whose stream URL is \<open>v\<close>. A read of \<open>k\<close> at a time before \<open>t0 + 3600\<close> returns
  \<open>v\<close>. A read at \<open>t0 + 3600\<close> or later returns a miss; it leaves the cache as it was, and
  the entry for \<open>k\<close> is still stored.
\<close>

theorem cache_read_before_and_after_ttl:
  "info_url i = Some v \<Longrightarrow> s' = cache_put s k (Some i) t0 \<Longrightarrow>
     (t < t0 + 3600 \<longrightarrow> get_cached_url s' k t = (Some v, s'))
   \<and> (t0 + 3600 \<le> t \<longrightarrow> get_cached_url s' k t = (None, s') \<and> url_cache s' k = Some v)"
  by (simp add: cache_put_def get_cached_url_def cache_duration_def)

text \<open>The theorem at a write at time 100, read at 3699 and at 3700.\<close>

theorem cache_read_before_and_after_ttl_witness:
  "info_url ex_info = Some ''http://cdn/a''
   \<and> get_cached_url (cache_put init_ytdl ''k'' (Some ex_info) 100) ''k'' 3699
       = (Some ''http://cdn/a'', cache_put init_ytdl ''k'' (Some ex_info) 100)
   \<and> get_cached_url (cache_put init_ytdl ''k'' (Some ex_info) 100) ''k'' 3700
       = (None, cache_put init_ytdl ''k'' (Some ex_info) 100)
   \<and> url_cache (cache_put init_ytdl ''k'' (Some ex_info) 100) ''k'' = Some ''http://cdn/a''"
  using cache_read_before_and_after_ttl [of ex_info "''http://cdn/a''" _ init_ytdl "''k''" 100 3699]
    cache_read_before_and_after_ttl [of ex_info "''http://cdn/a''" _ init_ytdl "''k''" 100 3700]
  by (simp add: ex_info_def)

text \<open>
  Claim C2 as stated fails: a read after the expiry returns a miss, and the entry is still
  in the cache afterwards.
\<close>

theorem expired_read_keeps_entry:
  "fst (get_cached_url (cache_put init_ytdl ''k'' (Some ex_info) 0) ''k'' 3600) = None
   \<and> url_cache (snd (get_cached_url (cache_put init_ytdl ''k'' (Some ex_info) 0) ''k'' 3600)) ''k''
       = Some ''http://cdn/a''"
  by (simp add: cache_put_def get_cached_url_def init_ytdl_def ex_info_def cache_duration_def)

subsection \<open>One extraction per key\<close>




subsection \<open>The priority argument\<close>

text \<open>
  What the code does with priorities. Let the pool be saturated and let requests for
  distinct keys, none in progress, be made in some order with any priorities. The pending
  work is then the keys in the order of the requests, after what was pending before; the
  state of the engine and of the pool is the same for any other choice of the priorities;
  and when a running job ends, the request made first is the one that starts.
\<close>

theorem pending_work_is_first_in_first_out:
  "length (running p) = max_workers p \<Longrightarrow> distinct (map fst rs) \<Longrightarrow>
   set (map fst rs) \<inter> download_in_progress s = {} \<Longrightarrow>
     pending (snd (foldl request (s, p) rs)) = pending p @ map fst rs
   \<and> running (snd (foldl request (s, p) rs)) = running p
   \<and> (\<forall>rs'. map fst rs' = map fst rs \<longrightarrow> foldl request (s, p) rs' = foldl request (s, p) rs)
   \<and> (\<forall>j r rest. pending p = [] \<and> rs = r # rest \<and> j \<in> set (running p) \<longrightarrow>
        pool_complete (snd (foldl request (s, p) rs)) j
          = p\<lparr>running := remove1 j (running p) @ [fst r], pending := map fst rest\<rparr>)"
proof -
  assume sat: "length (running p) = max_workers p" and d: "distinct (map fst rs)"
    and f: "set (map fst rs) \<inter> download_in_progress s = {}"
  have P: "snd (foldl request (s, p) rs) = p\<lparr>pending := pending p @ map fst rs\<rparr>"
    using foldl_request_saturated [OF sat d f] by simp
  have 3: "\<forall>rs'. map fst rs' = map fst rs \<longrightarrow> foldl request (s, p) rs' = foldl request (s, p) rs"
    using foldl_request_priority by blast
  have 4: "\<forall>j r rest. pending p = [] \<and> rs = r # rest \<and> j \<in> set (running p) \<longrightarrow>
        pool_complete (snd (foldl request (s, p) rs)) j
          = p\<lparr>running := remove1 j (running p) @ [fst r], pending := map fst rest\<rparr>"
    unfolding P by (auto simp: pool_complete_def)
  have 1: "pending (snd (foldl request (s, p) rs)) = pending p @ map fst rs"
    unfolding P by simp
  have 2: "running (snd (foldl request (s, p) rs)) = running p"
    unfolding P by simp
  show ?thesis by (intro conjI) (rule 1, rule 2, rule 3, rule 4)
qed

text \<open>
  The theorem on a full pool of four workers: a priority 10 request, then a priority 0
  request; a worker becomes free.
\<close>

theorem pending_work_is_first_in_first_out_witness:
  "length (running (snd busy)) = max_workers (snd busy)
   \<and> distinct (map fst [(''late'', 10::int), (''urgent'', 0)])
   \<and> set (map fst [(''late'', 10::int), (''urgent'', 0)]) \<inter> download_in_progress (fst busy) = {}
   \<and> pending (snd (foldl request busy [(''late'', 10), (''urgent'', 0)])) = [''late'', ''urgent'']
   \<and> pool_complete (snd (foldl request busy [(''late'', 10), (''urgent'', 0)])) ''w''
       = \<lparr>max_workers = 4, running = [''x'', ''y'', ''z'', ''late''], pending = [''urgent'']\<rparr>"
  using pending_work_is_first_in_first_out
    [of "snd busy" "[(''late'', 10), (''urgent'', 0)]" "fst busy"]
  by (simp add: busy_eq)

text \<open>
  Claim C4 is what the code sets out to do and does not do. Every entry point takes a
  priority, the callers compute one (0 for immediate playback, 1 or 2 for a request, 5 and
  more for prefetch) and \<open>__init__\<close> builds a priority queue, but \<open>extract_info\<close> never
  reads its priority and nothing is ever put on that queue. With the pool of four workers
  full, a priority 0 request made after a pending priority 10 request is still pending
  when the next worker is free, and the priority 10 request runs.
\<close>

theorem priority_zero_waits_behind_priority_ten:
  "running (pool_complete (snd (foldl request busy [(''late'', 10), (''urgent'', 0)])) ''w'')
     = [''x'', ''y'', ''z'', ''late'']
   \<and> pending (pool_complete (snd (foldl request busy [(''late'', 10), (''urgent'', 0)])) ''w'')
     = [''urgent'']
   \<and> download_queue (fst (foldl request busy [(''late'', 10), (''urgent'', 0)])) = []"
  by (simp add: busy_eq request_def extract_info_begin_def pool_submit_def pool_complete_def
      init_ytdl_def)

subsection \<open>Cache hits\<close>

text \<open>
  Claim C5, as the code has it. A direct resolve of a key whose cache entry has not
  expired and holds a non-empty URL returns that URL at once, hands nothing to the pool
  and leaves the engine as it was. A search never reads the cache: whatever the cache
  holds, a search whose key is not in progress hands its key to the pool.
\<close>

theorem direct_resolve_hit_skips_pool_search_does_not:
  "(fst (get_cached_url s k now) = Some u \<and> u \<noteq> [] \<longrightarrow>
      snd (get_audio_source s k p res now t) = (s, [])
      \<and> (\<exists>d. fst (get_audio_source s k p res now t) = Returns (Some d) \<and> url d = Some u))
   \<and> (''ytsearch1:'' @ q \<notin> download_in_progress s \<longrightarrow>
      snd (snd (search_song s q p res now)) = [''ytsearch1:'' @ q])"
proof -
  have 1: "fst (get_cached_url s k now) = Some u \<and> u \<noteq> [] \<longrightarrow>
      snd (get_audio_source s k p res now t) = (s, [])
      \<and> (\<exists>d. fst (get_audio_source s k p res now t) = Returns (Some d) \<and> url d = Some u)"
    by (auto simp: get_audio_source_def get_cached_url_def split: if_splits)
  have 2: "''ytsearch1:'' @ q \<notin> download_in_progress s \<longrightarrow>
      snd (snd (search_song s q p res now)) = [''ytsearch1:'' @ q]"
    by (auto simp: search_song_def extract_info_def extract_info_begin_def extract_info_end_def
        Let_def split: pool_outcome.splits option.splits await_exn.splits)
  show ?thesis using 1 2 by blast
qed

text \<open>
  The theorem on the engine after a direct resolve of a page, and after a search for
  \<open>song\<close>, ten seconds later.
\<close>

theorem direct_resolve_hit_skips_pool_search_does_not_witness:
  "fst (get_cached_url after_resolve ''http://page/a'' 10) = Some ''http://cdn/a''
   \<and> ''http://cdn/a'' \<noteq> []
   \<and> snd (get_audio_source after_resolve ''http://page/a'' 0 (Done None) 10 11) = (after_resolve, [])
   \<and> ''ytsearch1:'' @ ''song'' \<notin> download_in_progress after_search
   \<and> snd (snd (search_song after_search ''song'' 1 (Done None) 10)) = [''ytsearch1:'' @ ''song'']"
  using direct_resolve_hit_skips_pool_search_does_not
    [of after_resolve "''http://page/a''" 10 "''http://cdn/a''" 0 "Done None" 11 "''song''"]
    direct_resolve_hit_skips_pool_search_does_not
    [of after_search "''http://page/a''" 10 "''http://cdn/a''" 1 "Done None" 11 "''song''"]
  by (simp add: after_resolve_eq after_search_eq get_cached_url_def init_ytdl_def)

text \<open>
  Claim C5 as stated fails for the search shape: the key of a finished search has a
  cache entry that has not expired, and the same search again hands a job to the pool.
\<close>

theorem cached_search_still_submits:
  "get_cached_url after_search ''ytsearch1:song'' 10 = (Some ''http://cdn/a'', after_search)
   \<and> snd (snd (search_song after_search ''song'' 1 (Done (Some ex_info)) 10)) = [''ytsearch1:song'']"
  by (simp add: after_search_eq get_cached_url_def search_song_def extract_info_def
      extract_info_begin_def extract_info_end_def cache_put_def init_ytdl_def ex_info_def)

text \<open>
  Claim C10, as the code has it. For every key whose cache entry has not expired and
  holds a non-empty URL, a direct resolve returns the cached URL under \<open>url\<close>, the title
  \<open>Unknown\<close>, the key as \<open>webpage_url\<close> and no thumbnail, whatever title and thumbnail the
  extractor had found when the entry was written.
\<close>

theorem cache_hit_descriptor_has_no_metadata:
  "fst (get_cached_url s k now) = Some u \<Longrightarrow> u \<noteq> [] \<Longrightarrow>
   fst (get_audio_source s k p res now t)
     = Returns (Some \<lparr>url = Some u, title = ''Unknown'', thumbnail = None, webpage_url = k\<rparr>)"
  by (auto simp: get_audio_source_def get_cached_url_def split: if_splits)

text \<open>
  The theorem on the engine that resolved a page with title \<open>Song A\<close> and a thumbnail:
  ten seconds later the page resolves from the cache, without either.
\<close>

theorem cache_hit_descriptor_has_no_metadata_witness:
  "fst (get_cached_url after_resolve ''http://page/a'' 10) = Some ''http://cdn/a''
   \<and> ''http://cdn/a'' \<noteq> []
   \<and> fst (get_audio_source after_resolve ''http://page/a'' 0 (Done (Some ex_info)) 10 11)
       = Returns (Some \<lparr>url = Some ''http://cdn/a'', title = ''Unknown'', thumbnail = None,
           webpage_url = ''http://page/a''\<rparr>)"
  using cache_hit_descriptor_has_no_metadata
    [of after_resolve "''http://page/a''" 10 "''http://cdn/a''" 0 "Done (Some ex_info)" 11]
  by (simp add: after_resolve_eq get_cached_url_def init_ytdl_def)

text \<open>
  Claim C10 as stated fails when the cached URL is the empty string: the entry has not
  expired, yet the resolve goes to the extractor and returns the extractor's title and
  thumbnail.
\<close>

theorem empty_cached_url_is_not_a_hit:
  "get_cached_url after_empty_url ''http://page/a'' 10 = (Some '''', after_empty_url)
   \<and> fst (get_audio_source after_empty_url ''http://page/a'' 0 (Done (Some ex_info)) 10 11)
       = Returns (Some \<lparr>url = Some ''http://cdn/a'', title = ''Song A'',
           thumbnail = Some ''http://img/a'', webpage_url = ''http://page/a''\<rparr>)"
  by (simp add: after_empty_url_eq get_cached_url_def get_audio_source_def extract_info_def
      extract_info_begin_def extract_info_end_def cache_put_def init_ytdl_def ex_info_def)

section \<open>Properties of the session manager\<close>

subsection \<open>The timer tasks stay registered\<close>

lemma registered_fields:
  "timer_fields s = timer_fields s' \<Longrightarrow> registered k s = registered k s'"
  by (cases k) (simp_all add: timer_fields_def)

lemma timers_ok_fields: "timer_fields s = timer_fields s' \<Longrightarrow> timers_ok s = timers_ok s'"
proof -
  assume f: "timer_fields s = timer_fields s'"
  have r: "\<And>k. registered k s = registered k s'" using f by (rule registered_fields)
  have a: "alive s = alive s'" and n: "next_task s = next_task s'"
    using f by (simp_all add: timer_fields_def)
  show ?thesis unfolding timers_ok_def r a n ..
qed

lemma fields_sleep: "timer_fields (sleep d s) = timer_fields s"
  by (simp add: timer_fields_def sleep_def)

lemma fields_vc_disconnect: "timer_fields (snd (vc_disconnect vc f s)) = timer_fields s"
  by (simp add: timer_fields_def vc_disconnect_def)

lemma fields_disconnect_stale: "timer_fields (disconnect_stale g vcs s) = timer_fields s"
  by (induction vcs arbitrary: s) (simp_all add: fields_vc_disconnect)

lemma registered_cancel: "registered k (cancel tid s) = registered k s"
  by (cases k) (simp_all add: cancel_def)

lemma timers_ok_cancel: "timers_ok s \<Longrightarrow> timers_ok (cancel tid s)"
  unfolding timers_ok_def registered_cancel
  by (simp add: cancel_def)


lemma registered_all:
  "(\<forall>tid k g. P tid g (registered k s g) k) =
     ((\<forall>tid g. P tid g (cleanup_tasks s g) SessionRefresh)
    \<and> (\<forall>tid g. P tid g (keepalive_tasks s g) Keepalive)
    \<and> (\<forall>tid g. P tid g (inactivity_tasks s g) Inactivity))"
  (is "?L = ?R")
proof
  assume l: ?L
  show ?R
  proof (intro conjI allI)
    fix tid g
    show "P tid g (cleanup_tasks s g) SessionRefresh"
      using l [rule_format, of tid g SessionRefresh] by simp
    show "P tid g (keepalive_tasks s g) Keepalive"
      using l [rule_format, of tid g Keepalive] by simp
    show "P tid g (inactivity_tasks s g) Inactivity"
      using l [rule_format, of tid g Inactivity] by simp
  qed
next
  assume r: ?R
  show ?L
  proof (intro allI)
    fix tid k g
    show "P tid g (registered k s g) k" using r by (cases k) simp_all
  qed
qed

lemma timers_ok_alt:
  "timers_ok s =
     ((\<forall>tid g. alive s tid = Some (SessionRefresh, g) \<longrightarrow> cleanup_tasks s g = Some tid)
    \<and> (\<forall>tid g. alive s tid = Some (Keepalive, g) \<longrightarrow> keepalive_tasks s g = Some tid)
    \<and> (\<forall>tid g. alive s tid = Some (Inactivity, g) \<longrightarrow> inactivity_tasks s g = Some tid)
    \<and> (\<forall>tid g. cleanup_tasks s g = Some tid \<longrightarrow> tid < next_task s)
    \<and> (\<forall>tid g. keepalive_tasks s g = Some tid \<longrightarrow> tid < next_task s)
    \<and> (\<forall>tid g. inactivity_tasks s g = Some tid \<longrightarrow> tid < next_task s))"
  unfolding timers_ok_def
    registered_all [of "\<lambda>tid g r k. alive s tid = Some (k, g) \<longrightarrow> r = Some tid"]
    registered_all [of "\<lambda>tid g r k. r = Some tid \<longrightarrow> tid < next_task s"]
  by blast

lemma timers_ok_init: "timers_ok init_vm"
  by (simp add: timers_ok_alt init_vm_def)

lemma timers_ok_drop_cleanup:
  "timers_ok s \<Longrightarrow>
   timers_ok (case cleanup_tasks s g of None \<Rightarrow> s
     | Some tid \<Rightarrow> (cancel tid s)\<lparr>cleanup_tasks := (cleanup_tasks s)(g := None)\<rparr>)"
  by (auto simp: timers_ok_alt cancel_def split: option.splits)

lemma timers_ok_drop_keepalive:
  "timers_ok s \<Longrightarrow>
   timers_ok (case keepalive_tasks s g of None \<Rightarrow> s
     | Some tid \<Rightarrow> (cancel tid s)\<lparr>keepalive_tasks := (keepalive_tasks s)(g := None)\<rparr>)"
  by (auto simp: timers_ok_alt cancel_def split: option.splits)

lemma timers_ok_drop_inactivity:
  "timers_ok s \<Longrightarrow>
   timers_ok (case inactivity_tasks s g of None \<Rightarrow> s
     | Some tid \<Rightarrow> (cancel tid s)\<lparr>inactivity_tasks := (inactivity_tasks s)(g := None)\<rparr>)"
  by (auto simp: timers_ok_alt cancel_def split: option.splits)

lemma timers_ok_connections: "timers_ok (s\<lparr>connections := c\<rparr>) = timers_ok s"
  by (rule timers_ok_fields) (simp add: timer_fields_def)

lemma timers_ok_sleep: "timers_ok (sleep d s) = timers_ok s"
  by (rule timers_ok_fields) (rule fields_sleep)

lemma timers_ok_vc_disconnect: "timers_ok (snd (vc_disconnect vc f s)) = timers_ok s"
  by (rule timers_ok_fields) (rule fields_vc_disconnect)

lemma timers_ok_disconnect_stale: "timers_ok (disconnect_stale g vcs s) = timers_ok s"
  by (rule timers_ok_fields) (rule fields_disconnect_stale)

lemma timers_ok_cleanup: "timers_ok s \<Longrightarrow> timers_ok (cleanup_stale_connection s g)"
  unfolding cleanup_stale_connection_def Let_def timers_ok_sleep
  by (intro timers_ok_drop_inactivity timers_ok_drop_keepalive timers_ok_drop_cleanup)
    (simp add: timers_ok_connections timers_ok_disconnect_stale)

lemma timers_ok_start_inactivity: "timers_ok s \<Longrightarrow> timers_ok (start_inactivity_timer s g)"
  by (auto simp: timers_ok_alt start_inactivity_timer_def create_task_def cancel_def Let_def
      split: option.splits)

lemma timers_ok_cancel_inactivity: "timers_ok s \<Longrightarrow> timers_ok (cancel_inactivity_timer s g)"
  unfolding cancel_inactivity_timer_def by (rule timers_ok_drop_inactivity)

lemma timers_ok_start_session: "timers_ok s \<Longrightarrow> timers_ok (start_session_timers s g)"
  by (auto simp: timers_ok_alt start_session_timers_def create_task_def cancel_def Let_def
      split: option.splits)


lemma timers_ok_attempts: "timers_ok (s\<lparr>connection_attempts := c\<rparr>) = timers_ok s"
  by (rule timers_ok_fields) (simp add: timer_fields_def)

lemma timers_ok_trace: "timers_ok (s\<lparr>trace := c\<rparr>) = timers_ok s"
  by (rule timers_ok_fields) (simp add: timer_fields_def)

lemma timers_ok_clock: "timers_ok (s\<lparr>clock := c\<rparr>) = timers_ok s"
  by (rule timers_ok_fields) (simp add: timer_fields_def)

lemma timers_ok_voice_clients: "timers_ok (s\<lparr>voice_clients := c\<rparr>) = timers_ok s"
  by (rule timers_ok_fields) (simp add: timer_fields_def)

lemmas timers_ok_frame = timers_ok_attempts timers_ok_trace timers_ok_clock
  timers_ok_voice_clients timers_ok_connections timers_ok_sleep timers_ok_vc_disconnect

lemma timers_ok_attempt_body:
  "timers_ok s \<Longrightarrow> timers_ok (snd (attempt_body transport max_retries backoff_base g attempt s))"
  unfolding attempt_body_def Let_def
  by (simp add: timers_ok_frame timers_ok_cleanup timers_ok_start_session
      split: connect_result.splits option.splits)

lemma timers_ok_connect_loop:
  "timers_ok s \<Longrightarrow> timers_ok (snd (connect_loop transport max_retries backoff_base g attempt s))"
proof (induction transport max_retries backoff_base g attempt s rule: connect_loop.induct)
  case (1 transport max_retries backoff_base g attempt s)
  show ?case
  proof (cases "attempt < max_retries")
    case False
    then show ?thesis using "1.prems" by (simp add: connect_loop.simps)
  next
    case True
    obtain r s1 where b: "attempt_body transport max_retries backoff_base g attempt s = (r, s1)"
      by (cases "attempt_body transport max_retries backoff_base g attempt s")
    have ok1: "timers_ok s1"
      using timers_ok_attempt_body [OF "1.prems", of transport max_retries backoff_base g attempt] b
      by simp
    show ?thesis
    proof (cases r)
      case None
      then show ?thesis using True b ok1 "1.IH" [OF True b [symmetric] None ok1]
        by (simp add: connect_loop.simps [of transport max_retries backoff_base g attempt s])
    next
      case (Some vc)
      then show ?thesis using True b ok1
        by (simp add: connect_loop.simps [of transport max_retries backoff_base g attempt s])
    qed
  qed
qed

lemma timers_ok_connect_with_retry:
  "timers_ok s \<Longrightarrow> timers_ok (snd (connect_with_retry s g transport max_retries backoff_base))"
  by (simp add: connect_with_retry_def timers_ok_connect_loop timers_ok_cleanup)

lemma timers_ok_move_to: "timers_ok s \<Longrightarrow> timers_ok (snd (move_to s g move_ok transport))"
  by (simp add: move_to_def timers_ok_connect_with_retry timers_ok_cleanup)

lemma timers_ok_disconnect: "timers_ok s \<Longrightarrow> timers_ok (disconnect s g)"
  by (simp add: disconnect_def timers_ok_cleanup timers_ok_frame split: option.splits)

lemma timers_ok_apply_op: "timers_ok s \<Longrightarrow> timers_ok (apply_op s x)"
  by (cases x)
    (simp_all add: timers_ok_connect_with_retry timers_ok_move_to timers_ok_start_inactivity
      timers_ok_cancel_inactivity timers_ok_disconnect timers_ok_cleanup timers_ok_cancel
      timers_ok_frame)

lemma timers_ok_manager_after: "timers_ok (manager_after ops)"
  unfolding manager_after_def
  by (induction ops rule: rev_induct) (simp_all add: timers_ok_init timers_ok_apply_op)

lemma timers_ok_unique:
  "timers_ok s \<Longrightarrow> alive s t1 = Some (k, g) \<Longrightarrow> alive s t2 = Some (k, g) \<Longrightarrow> t1 = t2"
  unfolding timers_ok_def by (metis option.inject)

lemma timers_ok_fresh: "timers_ok s \<Longrightarrow> registered k s g = Some tid \<Longrightarrow> tid < next_task s"
  unfolding timers_ok_def by blast

subsection \<open>The manager after a first connect\<close>

lemma cleanup_init: "cleanup_stale_connection init_vm g = init_vm\<lparr>clock := 2, trace := [Sleep 2]\<rparr>"
  by (simp add: cleanup_stale_connection_def init_vm_def sleep_def)

lemma joined_eq:
  "joined = \<lparr>connections = [7 \<mapsto> good_handle], connection_attempts = [7 \<mapsto> 2],
     cleanup_tasks = [7 \<mapsto> 0], keepalive_tasks = [7 \<mapsto> 1], inactivity_tasks = Map.empty,
     voice_clients = [good_handle], clock = 3,
     alive = [0 \<mapsto> (SessionRefresh, 7), 1 \<mapsto> (Keepalive, 7)], next_task = 2,
     trace = [Sleep 2, Connect 0, Sleep 1]\<rparr>"
  by (simp add: joined_def connect_with_retry_def should_retry_connection_def cleanup_init)
    (simp add: init_vm_def connect_loop.simps [of _ _ _ _ 0] attempt_body_def backoff_time_def
      always_connects_def good_handle_def sleep_def start_session_timers_def create_task_def
      Let_def numeral_2_eq_2)

lemma joined_idle_eq:
  "manager_after joined_idle_ops = joined\<lparr>inactivity_tasks := [7 \<mapsto> 2],
     alive := [0 \<mapsto> (SessionRefresh, 7), 1 \<mapsto> (Keepalive, 7), 2 \<mapsto> (Inactivity, 7)],
     next_task := 3\<rparr>"
  by (simp add: manager_after_def joined_idle_ops_def joined_def [symmetric])
    (simp add: joined_eq start_inactivity_timer_def create_task_def Let_def numeral_3_eq_3 numeral_2_eq_2)

subsection \<open>Cooldown\<close>

text \<open>
  Claim C6. When the last recorded connection attempt of a guild is at most 10 seconds
  old, \<open>connect_with_retry\<close> returns \<open>None\<close> and leaves the manager and its surroundings
  exactly as they were: no client is connected or disconnected, nothing is slept, no
  effect is added to the trace.
\<close>

theorem cooldown_rejects_without_transport:
  "connection_attempts s g = Some last_attempt \<Longrightarrow> clock s - last_attempt \<le> 10 \<Longrightarrow>
   connect_with_retry s g transport max_retries backoff_base = (None, s)"
  by (simp add: connect_with_retry_def should_retry_connection_def)

text \<open>The theorem on the manager that has just joined: one second after its attempt.\<close>

theorem cooldown_rejects_without_transport_witness:
  "connection_attempts joined 7 = Some 2 \<and> clock joined - 2 \<le> 10
   \<and> connect_with_retry joined 7 always_connects 3 2 = (None, joined)"
  using cooldown_rejects_without_transport [of joined 7 2 always_connects 3 2]
  by (simp add: joined_eq)

subsection \<open>Timer tasks\<close>

text \<open>
  Claim C9. In every state that the manager reaches from its initial state by any
  sequence of its operations, two live tasks of the same kind for the same guild are the
  same task. Starting the inactivity timer, and starting the session-refresh and
  keepalive timers after a connect, leaves the task registered before not alive and
  registers a new task that is alive.
\<close>

theorem one_timer_task_per_kind_and_guild:
  "(alive (manager_after ops) t1 = Some (k, g) \<and> alive (manager_after ops) t2 = Some (k, g)
      \<longrightarrow> t1 = t2)
   \<and> (inactivity_tasks (manager_after ops) g = Some old \<longrightarrow>
        alive (start_inactivity_timer (manager_after ops) g) old = None)
   \<and> (cleanup_tasks (manager_after ops) g = Some old \<longrightarrow>
        alive (start_session_timers (manager_after ops) g) old = None)
   \<and> (keepalive_tasks (manager_after ops) g = Some old \<longrightarrow>
        alive (start_session_timers (manager_after ops) g) old = None)
   \<and> (\<exists>new. inactivity_tasks (start_inactivity_timer (manager_after ops) g) g = Some new
        \<and> alive (start_inactivity_timer (manager_after ops) g) new = Some (Inactivity, g))
   \<and> (\<exists>new. cleanup_tasks (start_session_timers (manager_after ops) g) g = Some new
        \<and> alive (start_session_timers (manager_after ops) g) new = Some (SessionRefresh, g))
   \<and> (\<exists>new. keepalive_tasks (start_session_timers (manager_after ops) g) g = Some new
        \<and> alive (start_session_timers (manager_after ops) g) new = Some (Keepalive, g))"
proof -
  define s where "s = manager_after ops"
  have ok: "timers_ok s" unfolding s_def by (rule timers_ok_manager_after)
  have 1: "alive s t1 = Some (k, g) \<and> alive s t2 = Some (k, g) \<longrightarrow> t1 = t2"
    using timers_ok_unique [OF ok] by blast
  have fi: "inactivity_tasks s g = Some old \<longrightarrow> old < next_task s"
    using timers_ok_fresh [OF ok, of Inactivity g old] by simp
  have fc: "cleanup_tasks s g = Some old \<longrightarrow> old < next_task s"
    using timers_ok_fresh [OF ok, of SessionRefresh g old] by simp
  have fk: "keepalive_tasks s g = Some old \<longrightarrow> old < next_task s"
    using timers_ok_fresh [OF ok, of Keepalive g old] by simp
  have fk': "\<And>t. keepalive_tasks s g = Some t \<Longrightarrow> t < next_task s"
    using timers_ok_fresh [OF ok, of Keepalive g] by simp
  have 2: "inactivity_tasks s g = Some old \<longrightarrow> alive (start_inactivity_timer s g) old = None"
    using fi by (auto simp: start_inactivity_timer_def create_task_def cancel_def Let_def)
  have 3: "cleanup_tasks s g = Some old \<longrightarrow> alive (start_session_timers s g) old = None"
    using fc by (auto simp: start_session_timers_def create_task_def cancel_def Let_def
        split: option.splits)
  have 4: "keepalive_tasks s g = Some old \<longrightarrow> alive (start_session_timers s g) old = None"
    using fk by (auto simp: start_session_timers_def create_task_def cancel_def Let_def
        split: option.splits)
  have 5: "\<exists>new. inactivity_tasks (start_inactivity_timer s g) g = Some new
        \<and> alive (start_inactivity_timer s g) new = Some (Inactivity, g)"
    by (simp add: start_inactivity_timer_def create_task_def cancel_def Let_def
        split: option.splits)
  have 6: "\<exists>new. cleanup_tasks (start_session_timers s g) g = Some new
        \<and> alive (start_session_timers s g) new = Some (SessionRefresh, g)"
    using fk' by (auto simp: start_session_timers_def create_task_def cancel_def Let_def
        split: option.splits)
  have 7: "\<exists>new. keepalive_tasks (start_session_timers s g) g = Some new
        \<and> alive (start_session_timers s g) new = Some (Keepalive, g)"
    by (simp add: start_session_timers_def create_task_def cancel_def Let_def
        split: option.splits)
  show ?thesis unfolding s_def [symmetric] by (intro conjI) (rule 1, rule 2, rule 3, rule 4, rule 5, rule 6, rule 7)
qed

text \<open>
  The theorem on the manager that joined guild 7 and started its inactivity timer: tasks
  0, 1 and 2 are registered, and starting each timer again ends the one before.
\<close>

theorem one_timer_task_per_kind_and_guild_witness:
  "alive (manager_after joined_idle_ops) 2 = Some (Inactivity, 7)
   \<and> inactivity_tasks (manager_after joined_idle_ops) 7 = Some 2
   \<and> alive (start_inactivity_timer (manager_after joined_idle_ops) 7) 2 = None
   \<and> cleanup_tasks (manager_after joined_idle_ops) 7 = Some 0
   \<and> alive (start_session_timers (manager_after joined_idle_ops) 7) 0 = None
   \<and> keepalive_tasks (manager_after joined_idle_ops) 7 = Some 1
   \<and> alive (start_session_timers (manager_after joined_idle_ops) 7) 1 = None"
  using one_timer_task_per_kind_and_guild [of joined_idle_ops 2 Inactivity 7 2 2]
    one_timer_task_per_kind_and_guild [of joined_idle_ops 2 Inactivity 7 2 0]
    one_timer_task_per_kind_and_guild [of joined_idle_ops 2 Inactivity 7 2 1]
  by (simp add: joined_idle_eq joined_eq)

subsection \<open>Retry and backoff\<close>

lemma attempts_sleep: "attempts_in (trace (sleep d s)) = attempts_in (trace s)"
  by (simp add: attempts_in_def sleep_def)

lemma attempts_vc_disconnect:
  "attempts_in (trace (snd (vc_disconnect vc f s))) = attempts_in (trace s)"
  by (simp add: attempts_in_def vc_disconnect_def)

lemma attempts_disconnect_stale:
  "attempts_in (trace (disconnect_stale g vcs s)) = attempts_in (trace s)"
  by (induction vcs arbitrary: s) (simp_all add: attempts_vc_disconnect)

lemma trace_cancel: "trace (cancel tid s) = trace s"
  by (simp add: cancel_def)

lemma attempts_cleanup:
  "attempts_in (trace (cleanup_stale_connection s g)) = attempts_in (trace s)"
  by (simp add: cleanup_stale_connection_def Let_def attempts_sleep trace_cancel
      attempts_disconnect_stale split: option.splits)

lemma trace_start_session_timers: "trace (start_session_timers s g) = trace s"
  by (simp add: start_session_timers_def Let_def create_task_def cancel_def split: option.splits)

lemma attempts_attempt_body:
  "attempts_in (trace (snd (attempt_body transport max_retries backoff_base g attempt s)))
     = attempts_in (trace s) @ attempt_effects backoff_base attempt"
  by (simp add: attempt_body_def Let_def attempt_effects_def attempts_sleep
      attempts_vc_disconnect attempts_cleanup trace_start_session_timers
      split: connect_result.splits option.splits)
    (simp add: attempts_in_def)

lemma attempt_body_valid:
  "fst (attempt_body transport max_retries backoff_base g attempt s) = Some vc \<Longrightarrow>
   validate_session (Some vc)"
  by (auto simp: attempt_body_def Let_def split: connect_result.splits option.splits if_splits)

lemma attempt_body_fails:
  "attempt_fails (transport attempt) \<Longrightarrow> \<not> already_connected (transport attempt) \<Longrightarrow>
   fst (attempt_body transport max_retries backoff_base g attempt s) = None"
  by (auto simp: attempt_body_def Let_def split: connect_result.splits option.splits if_splits)

lemma attempt_body_connects:
  "transport attempt = Connected vc \<Longrightarrow> validate_session (Some vc) \<Longrightarrow>
   fst (attempt_body transport max_retries backoff_base g attempt s) = Some vc"
  by (simp add: attempt_body_def Let_def)


lemma connect_loop_valid:
  "fst (connect_loop transport max_retries backoff_base g attempt s) = Some vc \<Longrightarrow>
   validate_session (Some vc)"
proof (induction transport max_retries backoff_base g attempt s rule: connect_loop.induct)
  case (1 transport max_retries backoff_base g attempt s)
  show ?case
  proof (cases "attempt < max_retries")
    case False
    then show ?thesis using "1.prems" by (simp add: connect_loop.simps)
  next
    case True
    obtain r s1 where b: "attempt_body transport max_retries backoff_base g attempt s = (r, s1)"
      by (cases "attempt_body transport max_retries backoff_base g attempt s")
    show ?thesis
    proof (cases r)
      case None
      then show ?thesis using True b "1.prems" "1.IH" [OF True b [symmetric] None]
        by (simp add: connect_loop.simps [of transport max_retries backoff_base g attempt s])
    next
      case (Some v)
      then have "v = vc" using True b "1.prems"
        by (simp add: connect_loop.simps [of transport max_retries backoff_base g attempt s])
      then show ?thesis
        using attempt_body_valid [of transport max_retries backoff_base g attempt s vc] b Some
        by simp
    qed
  qed
qed

lemma connect_loop_attempts:
  "\<exists>n. attempt + n \<le> max attempt max_retries
     \<and> attempts_in (trace (snd (connect_loop transport max_retries backoff_base g attempt s)))
         = attempts_in (trace s)
           @ concat (map (attempt_effects backoff_base) [attempt..<attempt + n])"
proof (induction transport max_retries backoff_base g attempt s rule: connect_loop.induct)
  case (1 transport max_retries backoff_base g attempt s)
  show ?case
  proof (cases "attempt < max_retries")
    case False
    then have "attempts_in (trace (snd (connect_loop transport max_retries backoff_base g attempt s)))
         = attempts_in (trace s)
           @ concat (map (attempt_effects backoff_base) [attempt..<attempt + 0])"
      by (simp add: connect_loop.simps)
    then show ?thesis by (intro exI [of _ 0]) simp
  next
    case True
    obtain r s1 where b: "attempt_body transport max_retries backoff_base g attempt s = (r, s1)"
      by (cases "attempt_body transport max_retries backoff_base g attempt s")
    have e1: "attempts_in (trace s1) = attempts_in (trace s) @ attempt_effects backoff_base attempt"
      using attempts_attempt_body [of transport max_retries backoff_base g attempt s] b by simp
    show ?thesis
    proof (cases r)
      case (Some v)
      then have "snd (connect_loop transport max_retries backoff_base g attempt s) = s1"
        using True b
        by (simp add: connect_loop.simps [of transport max_retries backoff_base g attempt s])
      then have "attempts_in (trace (snd (connect_loop transport max_retries backoff_base g attempt s)))
         = attempts_in (trace s)
           @ concat (map (attempt_effects backoff_base) [attempt..<attempt + 1])"
        using e1 by simp
      moreover have "attempt + 1 \<le> max attempt max_retries" using True by simp
      ultimately show ?thesis by blast
    next
      case None
      from "1.IH" [OF True b [symmetric] None]
      obtain n where n: "Suc attempt + n \<le> max (Suc attempt) max_retries"
        and t: "attempts_in (trace (snd (connect_loop transport max_retries backoff_base g (Suc attempt) s1)))
         = attempts_in (trace s1)
           @ concat (map (attempt_effects backoff_base) [Suc attempt..<Suc attempt + n])"
        by blast
      have l: "connect_loop transport max_retries backoff_base g attempt s
          = connect_loop transport max_retries backoff_base g (Suc attempt) s1"
        using True b None
        by (simp add: connect_loop.simps [of transport max_retries backoff_base g attempt s])
      have u: "[attempt..<attempt + Suc n] = attempt # [Suc attempt..<Suc attempt + n]"
        by (simp add: upt_rec [of attempt])
      have "attempts_in (trace (snd (connect_loop transport max_retries backoff_base g attempt s)))
         = attempts_in (trace s)
           @ concat (map (attempt_effects backoff_base) [attempt..<attempt + Suc n])"
        unfolding l t e1 u by simp
      moreover have "attempt + Suc n \<le> max attempt max_retries" using True n by simp
      ultimately show ?thesis by blast
    qed
  qed
qed

lemma connect_with_retry_attempts:
  "\<exists>n\<le>max_retries.
     attempts_in (trace (snd (connect_with_retry s g transport max_retries backoff_base)))
       = attempts_in (trace s) @ concat (map (attempt_effects backoff_base) [0..<n])"
proof (cases "should_retry_connection s g")
  case False
  then have "attempts_in (trace (snd (connect_with_retry s g transport max_retries backoff_base)))
       = attempts_in (trace s) @ concat (map (attempt_effects backoff_base) [0..<0])"
    by (simp add: connect_with_retry_def)
  then show ?thesis by blast
next
  case True
  obtain n where n: "0 + n \<le> max 0 max_retries"
    and t: "attempts_in (trace (snd (connect_loop transport max_retries backoff_base g 0
              (cleanup_stale_connection s g))))
         = attempts_in (trace (cleanup_stale_connection s g))
           @ concat (map (attempt_effects backoff_base) [0..<0 + n])"
    using connect_loop_attempts [of 0 max_retries transport backoff_base g
        "cleanup_stale_connection s g"] by blast
  have "attempts_in (trace (snd (connect_with_retry s g transport max_retries backoff_base)))
       = attempts_in (trace s) @ concat (map (attempt_effects backoff_base) [0..<n])"
    using True t by (simp add: connect_with_retry_def attempts_cleanup)
  moreover have "n \<le> max_retries" using n by simp
  ultimately show ?thesis by blast
qed


lemma connect_loop_reaches:
  "attempt \<le> k \<Longrightarrow> k < max_retries \<Longrightarrow> transport k = Connected vc \<Longrightarrow>
   validate_session (Some vc) \<Longrightarrow>
   fst (connect_loop transport max_retries backoff_base g attempt s) \<noteq> None"
proof (induction transport max_retries backoff_base g attempt s rule: connect_loop.induct)
  case (1 transport max_retries backoff_base g attempt s)
  have lt: "attempt < max_retries" using "1.prems" by simp
  obtain r s1 where b: "attempt_body transport max_retries backoff_base g attempt s = (r, s1)"
    by (cases "attempt_body transport max_retries backoff_base g attempt s")
  show ?case
  proof (cases r)
    case (Some v)
    then show ?thesis using lt b
      by (simp add: connect_loop.simps [of transport max_retries backoff_base g attempt s])
  next
    case None
    have "attempt \<noteq> k"
      using attempt_body_connects [of transport k vc max_retries backoff_base g s] "1.prems" b None
      by auto
    then have "Suc attempt \<le> k" using "1.prems" by simp
    then show ?thesis
      using "1.IH" [OF lt b [symmetric] None] "1.prems" lt b None
      by (simp add: connect_loop.simps [of transport max_retries backoff_base g attempt s])
  qed
qed

lemma connect_loop_third_attempt:
  assumes f0: "attempt_fails (transport 0)" and n0: "\<not> already_connected (transport 0)"
    and f1: "attempt_fails (transport 1)" and n1: "\<not> already_connected (transport 1)"
    and c2: "transport 2 = Connected vc" and v: "validate_session (Some vc)"
  shows "fst (connect_loop transport 3 backoff_base g 0 s) = Some vc
    \<and> attempts_in (trace (snd (connect_loop transport 3 backoff_base g 0 s)))
        = attempts_in (trace s) @ attempt_effects backoff_base 0
          @ attempt_effects backoff_base 1 @ attempt_effects backoff_base 2"
proof -
  obtain r0 s1 where b0: "attempt_body transport 3 backoff_base g 0 s = (r0, s1)"
    by (cases "attempt_body transport 3 backoff_base g 0 s")
  have r0: "r0 = None" using attempt_body_fails [of transport 0 3 backoff_base g s] f0 n0 b0 by simp
  have e0: "attempts_in (trace s1) = attempts_in (trace s) @ attempt_effects backoff_base 0"
    using attempts_attempt_body [of transport 3 backoff_base g 0 s] b0 by simp
  obtain r1 s2 where b1: "attempt_body transport 3 backoff_base g 1 s1 = (r1, s2)"
    by (cases "attempt_body transport 3 backoff_base g 1 s1")
  have r1: "r1 = None" using attempt_body_fails [of transport 1 3 backoff_base g s1] f1 n1 b1 by simp
  have e1: "attempts_in (trace s2) = attempts_in (trace s1) @ attempt_effects backoff_base 1"
    using attempts_attempt_body [of transport 3 backoff_base g 1 s1] b1 by simp
  obtain r2 s3 where b2: "attempt_body transport 3 backoff_base g 2 s2 = (r2, s3)"
    by (cases "attempt_body transport 3 backoff_base g 2 s2")
  have r2: "r2 = Some vc"
    using attempt_body_connects [of transport 2 vc 3 backoff_base g s2] c2 v b2 by simp
  have e2: "attempts_in (trace s3) = attempts_in (trace s2) @ attempt_effects backoff_base 2"
    using attempts_attempt_body [of transport 3 backoff_base g 2 s2] b2 by simp
  have l2: "connect_loop transport 3 backoff_base g 2 s2 = (Some vc, s3)"
    using b2 r2 by (simp add: connect_loop.simps [of transport 3 backoff_base g 2 s2])
  have l1: "connect_loop transport 3 backoff_base g 1 s1 = (Some vc, s3)"
    using b1 r1 l2
    by (simp add: connect_loop.simps [of transport 3 backoff_base g "Suc 0" s1] numeral_2_eq_2)
  have l0: "connect_loop transport 3 backoff_base g 0 s = (Some vc, s3)"
    using b0 r0 l1 by (simp add: connect_loop.simps [of transport 3 backoff_base g 0 s])
  show ?thesis unfolding l0 using e0 e1 e2 by simp
qed

lemma attempt_effects_first: "attempt_effects backoff_base 0 = [Connect 0]"
  by (simp add: attempt_effects_def backoff_time_def)

lemma attempt_effects_later:
  "0 < attempt \<Longrightarrow> attempt_effects backoff_base attempt
     = [Backoff attempt (min (backoff_base ^ attempt) 30), Connect attempt]"
  by (simp add: attempt_effects_def backoff_time_def)

text \<open>
  Claim C7. For every transport, \<open>connect_with_retry\<close> calls \<open>channel.connect\<close> for the
  attempts \<open>0\<close> up to some \<open>n\<close> not above \<open>max_retries\<close> (3 by default), in order. Nothing is
  waited as backoff before attempt \<open>0\<close>; before every later attempt it waits
  \<open>min (backoff_base ^ attempt) 30\<close> seconds. When no cooldown applies, the first two
  calls fail (they raise, or return a client that fails validation) and the third returns
  a client that passes validation, \<open>connect_with_retry\<close> returns a validated client. Unless
  one of the failures was the conflict of being already connected (after which an
  existing validated client is returned instead), it is the client of the third call,
  after a backoff of 2 seconds before the second call and of 4 seconds before the third.
\<close>

theorem retry_with_capped_exponential_backoff:
  "(\<exists>n\<le>max_retries.
      attempts_in (trace (snd (connect_with_retry s g transport max_retries backoff_base)))
        = attempts_in (trace s) @ concat (map (attempt_effects backoff_base) [0..<n]))
   \<and> attempt_effects backoff_base 0 = [Connect 0]
   \<and> (0 < attempt \<longrightarrow> attempt_effects backoff_base attempt
         = [Backoff attempt (min (backoff_base ^ attempt) 30), Connect attempt])
   \<and> (should_retry_connection s g \<and> attempt_fails (transport 0) \<and> attempt_fails (transport 1)
        \<and> transport 2 = Connected vc \<and> validate_session (Some vc) \<longrightarrow>
        (\<exists>v. fst (connect_with_retry s g transport 3 2) = Some v \<and> validate_session (Some v))
        \<and> (\<not> already_connected (transport 0) \<and> \<not> already_connected (transport 1) \<longrightarrow>
             fst (connect_with_retry s g transport 3 2) = Some vc
             \<and> attempts_in (trace (snd (connect_with_retry s g transport 3 2)))
                 = attempts_in (trace s)
                   @ [Connect 0, Backoff 1 2, Connect 1, Backoff 2 4, Connect 2]))"
proof -
  have A: "\<exists>n\<le>max_retries.
      attempts_in (trace (snd (connect_with_retry s g transport max_retries backoff_base)))
        = attempts_in (trace s) @ concat (map (attempt_effects backoff_base) [0..<n])"
    by (rule connect_with_retry_attempts)
  have B: "0 < attempt \<longrightarrow> attempt_effects backoff_base attempt
         = [Backoff attempt (min (backoff_base ^ attempt) 30), Connect attempt]"
    using attempt_effects_later by blast
  have C: "should_retry_connection s g \<and> attempt_fails (transport 0) \<and> attempt_fails (transport 1)
        \<and> transport 2 = Connected vc \<and> validate_session (Some vc) \<longrightarrow>
        (\<exists>v. fst (connect_with_retry s g transport 3 2) = Some v \<and> validate_session (Some v))
        \<and> (\<not> already_connected (transport 0) \<and> \<not> already_connected (transport 1) \<longrightarrow>
             fst (connect_with_retry s g transport 3 2) = Some vc
             \<and> attempts_in (trace (snd (connect_with_retry s g transport 3 2)))
                 = attempts_in (trace s)
                   @ [Connect 0, Backoff 1 2, Connect 1, Backoff 2 4, Connect 2])"
  proof (intro impI, elim conjE)
    assume sr: "should_retry_connection s g" and f0: "attempt_fails (transport 0)"
      and f1: "attempt_fails (transport 1)" and c2: "transport 2 = Connected vc"
      and v: "validate_session (Some vc)"
    define s0 where "s0 = cleanup_stale_connection s g"
    have cw: "connect_with_retry s g transport 3 2 = connect_loop transport 3 2 g 0 s0"
      using sr by (simp add: connect_with_retry_def s0_def)
    have "fst (connect_loop transport 3 2 g 0 s0) \<noteq> None"
      using connect_loop_reaches [of 0 2 3 transport vc 2 g s0] c2 v by simp
    then obtain w where w: "fst (connect_loop transport 3 2 g 0 s0) = Some w" by blast
    have 1: "\<exists>v. fst (connect_with_retry s g transport 3 2) = Some v \<and> validate_session (Some v)"
      unfolding cw using w connect_loop_valid [OF w] by blast
    have 2: "\<not> already_connected (transport 0) \<and> \<not> already_connected (transport 1) \<longrightarrow>
             fst (connect_with_retry s g transport 3 2) = Some vc
             \<and> attempts_in (trace (snd (connect_with_retry s g transport 3 2)))
                 = attempts_in (trace s)
                   @ [Connect 0, Backoff 1 2, Connect 1, Backoff 2 4, Connect 2]"
    proof (intro impI, elim conjE)
      assume n0: "\<not> already_connected (transport 0)" and n1: "\<not> already_connected (transport 1)"
      have e: "attempt_effects 2 0 @ attempt_effects 2 1 @ attempt_effects 2 2
          = [Connect 0, Backoff 1 2, Connect 1, Backoff 2 4, Connect 2]"
        by (simp add: attempt_effects_def backoff_time_def)
      show "fst (connect_with_retry s g transport 3 2) = Some vc
             \<and> attempts_in (trace (snd (connect_with_retry s g transport 3 2)))
                 = attempts_in (trace s)
                   @ [Connect 0, Backoff 1 2, Connect 1, Backoff 2 4, Connect 2]"
        unfolding cw
        using connect_loop_third_attempt [OF f0 n0 f1 n1 c2 v, of 2 g s0] e
        by (simp add: s0_def attempts_cleanup)
    qed
    show "(\<exists>v. fst (connect_with_retry s g transport 3 2) = Some v \<and> validate_session (Some v))
        \<and> (\<not> already_connected (transport 0) \<and> \<not> already_connected (transport 1) \<longrightarrow>
             fst (connect_with_retry s g transport 3 2) = Some vc
             \<and> attempts_in (trace (snd (connect_with_retry s g transport 3 2)))
                 = attempts_in (trace s)
                   @ [Connect 0, Backoff 1 2, Connect 1, Backoff 2 4, Connect 2])"
      using 1 2 by (rule conjI)
  qed
  show ?thesis by (intro conjI) (rule A, rule attempt_effects_first, rule B, rule C)
qed

text \<open>
  The theorem on a fresh manager with a transport that times out twice and then
  connects; the sixth attempt of a longer run would wait the cap of 30 seconds.
\<close>

theorem retry_with_capped_exponential_backoff_witness:
  "should_retry_connection init_vm 7 \<and> attempt_fails (third_time_lucky 0)
   \<and> attempt_fails (third_time_lucky 1) \<and> third_time_lucky 2 = Connected good_handle
   \<and> validate_session (Some good_handle)
   \<and> \<not> already_connected (third_time_lucky 0) \<and> \<not> already_connected (third_time_lucky 1)
   \<and> fst (connect_with_retry init_vm 7 third_time_lucky 3 2) = Some good_handle
   \<and> attempts_in (trace (snd (connect_with_retry init_vm 7 third_time_lucky 3 2)))
       = [Connect 0, Backoff 1 2, Connect 1, Backoff 2 4, Connect 2]
   \<and> attempt_effects 2 5 = [Backoff 5 30, Connect 5]"
  using retry_with_capped_exponential_backoff [of 3 init_vm 7 third_time_lucky 2 5 good_handle]
  by (simp add: should_retry_connection_def init_vm_def third_time_lucky_def good_handle_def
      attempts_in_def)

section \<open>Properties of the playback orchestrator\<close>

lemma make_source_fails: "fails_entirely r \<Longrightarrow> make_source r n = Inl BothFailed"
  by (auto simp: fails_entirely_def stream_fails_def make_source_def Let_def
      split: option.splits)

lemma try_play_fails: "fails_entirely r \<Longrightarrow> try_play r n st = (Some BothFailed, st)"
  by (simp add: try_play_def make_source_fails)

lemma try_play_plays:
  "streams_and_plays r \<Longrightarrow> announce_ok r \<Longrightarrow>
   try_play r n st = (None, st\<lparr>current_song := Some n, last_error := None,
     events := events st @ [TimerCancelled, Play n, Send (NowPlaying n)]\<rparr>)"
  by (auto simp: streams_and_plays_def stream_fails_def try_play_def make_source_def Let_def
      split: option.splits)

lemma try_play_frame:
  "try_play r n st = (e, st') \<Longrightarrow> queue st' = queue st \<and> voice_client st' = voice_client st"
  by (auto simp: try_play_def Let_def split: sum.splits if_splits)

lemma try_play_started:
  "try_play r n st = (None, st') \<Longrightarrow>
   events st' = (events st @ [TimerCancelled]) @ [Play n, Send (NowPlaying n)]"
  by (auto simp: try_play_def Let_def split: sum.splits if_splits)

lemma replies_append: "replies (xs @ ys) = replies xs @ replies ys"
  by (simp add: replies_def)

lemma try_play_replies: "try_play r n st = (e, st') \<Longrightarrow> replies (events st') = replies (events st)"
  by (auto simp: try_play_def Let_def replies_def split: sum.splits if_splits)

text \<open>One run of the body of \<open>play_next\<close> on a non-empty queue with a voice client.\<close>

lemma play_next_cons:
  assumes q: "queue st = next_song # rest" and h: "voice_client st = Some vc"
    and t: "try_play (env (webpage_url next_song)) next_song
              (st\<lparr>queue := rest, events := events st @ [PrefetchScheduled (take 3 rest)]\<rparr>) = (e, st2)"
  shows "play_next env st =
     (case e of
        None \<Rightarrow> (False, st2)
      | Some err \<Rightarrow>
          if \<not> report_ok (env (webpage_url next_song)) then (True, st2\<lparr>last_error := Some err\<rparr>)
          else if rest \<noteq> []
          then play_next env (st2\<lparr>last_error := Some err,
                 events := events st2 @ [Send (CouldNotPlay (title next_song) err)]\<rparr>)
          else (False, st2\<lparr>last_error := Some err,
                 events := events st2 @ [Send (CouldNotPlay (title next_song) err)]\<rparr>))"
proof -
  have f: "queue st2 = rest" using try_play_frame [OF t] by simp
  show ?thesis
    using q h t f by (cases e) (simp_all add: play_next.simps [of env st] Let_def)
qed


lemma play_next_nil:
  "queue st = [] \<Longrightarrow>
   play_next env st
     = (False, if voice_client st \<noteq> None then st\<lparr>events := events st @ [TimerStarted]\<rparr> else st)"
  by (simp add: play_next.simps [of env st])

lemma play_next_no_client: "voice_client st = None \<Longrightarrow> play_next env st = (False, st)"
  by (cases "queue st") (simp_all add: play_next.simps [of env st])

lemma play_next_never_stalls:
  "voice_client st \<noteq> None \<Longrightarrow> \<not> fst (play_next env st) \<Longrightarrow>
   queue (snd (play_next env st)) = []
   \<or> (\<exists>s pre. events (snd (play_next env st)) = pre @ [Play s, Send (NowPlaying s)])"
proof (induction "queue st" arbitrary: st)
  case Nil
  then show ?case by (simp add: play_next_nil [of st env])
next
  case (Cons next_song rest)
  obtain vc where h: "voice_client st = Some vc" using Cons.prems by blast
  define st1 where "st1 = st\<lparr>queue := rest, events := events st @ [PrefetchScheduled (take 3 rest)]\<rparr>"
  obtain e st2 where t: "try_play (env (webpage_url next_song)) next_song st1 = (e, st2)"
    by (cases "try_play (env (webpage_url next_song)) next_song st1")
  have f: "queue st2 = rest" "voice_client st2 = Some vc"
    using try_play_frame [OF t] h by (simp_all add: st1_def)
  note pn = play_next_cons [of st next_song rest vc env e st2,
      OF Cons.hyps(2) [symmetric] h t [unfolded st1_def]]
  show ?case
  proof (cases e)
    case None
    then have "play_next env st = (False, st2)" using pn by simp
    then show ?thesis using try_play_started [of _ _ st1 st2] t None by auto
  next
    case (Some err)
    define st4 where "st4 = st2\<lparr>last_error := Some err,
        events := events st2 @ [Send (CouldNotPlay (title next_song) err)]\<rparr>"
    have rep: "report_ok (env (webpage_url next_song))"
      using pn Some Cons.prems(2) by (auto split: if_splits)
    show ?thesis
    proof (cases "rest = []")
      case True
      then have "play_next env st = (False, st4)" using pn Some rep by (simp add: st4_def)
      then show ?thesis using f True by (simp add: st4_def)
    next
      case False
      have p: "play_next env st = play_next env st4" using pn Some rep False by (simp add: st4_def)
      have "queue (snd (play_next env st4)) = []
          \<or> (\<exists>s pre. events (snd (play_next env st4)) = pre @ [Play s, Send (NowPlaying s)])"
      proof (rule Cons.hyps(1))
        show "rest = queue st4" using f by (simp add: st4_def)
        show "voice_client st4 \<noteq> None" using f by (simp add: st4_def)
        show "\<not> fst (play_next env st4)" using Cons.prems(2) p by simp
      qed
      then show ?thesis unfolding p .
    qed
  qed
qed

lemma play_next_queue_suffix:
  "\<exists>n. queue (snd (play_next env st)) = drop n (queue st)
     \<and> (voice_client st \<noteq> None \<and> queue st \<noteq> [] \<longrightarrow> 0 < n)"
proof (induction "queue st" arbitrary: st)
  case Nil
  have "queue (snd (play_next env st)) = drop 0 (queue st)"
    using Nil by (simp add: play_next_nil [of st env])
  then show ?case using Nil by auto
next
  case (Cons next_song rest)
  show ?case
  proof (cases "voice_client st")
    case None
    then have "queue (snd (play_next env st)) = drop 0 (queue st)"
      by (simp add: play_next_no_client)
    then show ?thesis using None by blast
  next
    case (Some vc)
    define st1 where "st1 = st\<lparr>queue := rest, events := events st @ [PrefetchScheduled (take 3 rest)]\<rparr>"
    obtain e st2 where t: "try_play (env (webpage_url next_song)) next_song st1 = (e, st2)"
      by (cases "try_play (env (webpage_url next_song)) next_song st1")
    have f: "queue st2 = rest" using try_play_frame [OF t] by (simp add: st1_def)
    note pn = play_next_cons [of st next_song rest vc env e st2,
        OF Cons.hyps(2) [symmetric] Some t [unfolded st1_def]]
    have q: "queue st = next_song # rest" using Cons.hyps(2) by simp
    define st4 where "st4 = st2\<lparr>last_error := Some (the e),
        events := events st2 @ [Send (CouldNotPlay (title next_song) (the e))]\<rparr>"
    have "(queue (snd (play_next env st)) = rest) \<or> play_next env st = play_next env st4"
      using pn f by (cases e) (auto simp: st4_def)
    then show ?thesis
    proof
      assume "queue (snd (play_next env st)) = rest"
      then have "queue (snd (play_next env st)) = drop 1 (queue st)" using q by simp
      then show ?thesis by (intro exI [of _ 1]) simp
    next
      assume p: "play_next env st = play_next env st4"
      have "rest = queue st4" using f by (simp add: st4_def)
      from Cons.hyps(1) [OF this] obtain n where
        n: "queue (snd (play_next env st4)) = drop n (queue st4)" by blast
      have "queue (snd (play_next env st)) = drop (Suc n) (queue st)"
        using n p q f by (simp add: st4_def)
      then show ?thesis by (intro exI [of _ "Suc n"]) simp
    qed
  qed
qed

lemma play_next_replies: "replies (events (snd (play_next env st))) = replies (events st)"
proof (induction "queue st" arbitrary: st)
  case Nil
  then show ?case by (simp add: play_next_nil [of st env] replies_def)
next
  case (Cons next_song rest)
  show ?case
  proof (cases "voice_client st")
    case None
    then show ?thesis by (simp add: play_next_no_client)
  next
    case (Some vc)
    define st1 where "st1 = st\<lparr>queue := rest, events := events st @ [PrefetchScheduled (take 3 rest)]\<rparr>"
    obtain e st2 where t: "try_play (env (webpage_url next_song)) next_song st1 = (e, st2)"
      by (cases "try_play (env (webpage_url next_song)) next_song st1")
    have f: "queue st2 = rest" using try_play_frame [OF t] by (simp add: st1_def)
    have r2: "replies (events st2) = replies (events st)"
      using try_play_replies [OF t] by (simp add: st1_def replies_def)
    note pn = play_next_cons [of st next_song rest vc env e st2,
        OF Cons.hyps(2) [symmetric] Some t [unfolded st1_def]]
    define st4 where "st4 = st2\<lparr>last_error := Some (the e),
        events := events st2 @ [Send (CouldNotPlay (title next_song) (the e))]\<rparr>"
    have r4: "replies (events st4) = replies (events st)"
      using r2 by (simp add: st4_def replies_def)
    have "replies (events (snd (play_next env st))) = replies (events st)
        \<or> play_next env st = play_next env st4"
      using pn r2 r4 by (cases e) (auto simp: st4_def)
    then show ?thesis
    proof
      assume "replies (events (snd (play_next env st))) = replies (events st)"
      then show ?thesis .
    next
      assume p: "play_next env st = play_next env st4"
      have "rest = queue st4" using f by (simp add: st4_def)
      from Cons.hyps(1) [OF this] show ?thesis using p r4 by simp
    qed
  qed
qed


subsection \<open>A head that cannot be played\<close>

lemma play_next_skips_failed_head:
  "voice_client st \<noteq> None \<Longrightarrow> queue st = [a, b, c] \<Longrightarrow>
   fails_entirely (env (webpage_url a)) \<Longrightarrow> report_ok (env (webpage_url a)) \<Longrightarrow>
   streams_and_plays (env (webpage_url b)) \<Longrightarrow> announce_ok (env (webpage_url b)) \<Longrightarrow>
   play_next env st = (False, st\<lparr>current_song := Some b, queue := [c], last_error := None,
     events := events st @ [PrefetchScheduled [b, c], Send (CouldNotPlay (title a) BothFailed),
       PrefetchScheduled [c], TimerCancelled, Play b, Send (NowPlaying b)]\<rparr>)"
proof -
  assume vc: "voice_client st \<noteq> None" and q: "queue st = [a, b, c]"
    and fa: "fails_entirely (env (webpage_url a))" and ra: "report_ok (env (webpage_url a))"
    and pb: "streams_and_plays (env (webpage_url b))" and ab: "announce_ok (env (webpage_url b))"
  obtain h where h: "voice_client st = Some h" using vc by blast
  define st4 where "st4 = st\<lparr>queue := [b, c], last_error := Some BothFailed,
     events := events st @ [PrefetchScheduled [b, c], Send (CouldNotPlay (title a) BothFailed)]\<rparr>"
  have 1: "play_next env st = play_next env st4"
    using play_next_cons [of st a "[b, c]" h env "Some BothFailed"
        "st\<lparr>queue := [b, c], events := events st @ [PrefetchScheduled (take 3 [b, c])]\<rparr>"]
      q h ra try_play_fails [OF fa]
    by (simp add: st4_def)
  have q4: "queue st4 = [b, c]" and v4: "voice_client st4 = Some h"
    using h by (simp_all add: st4_def)
  have 2: "play_next env st4 = (False, st4\<lparr>queue := [c], current_song := Some b, last_error := None,
        events := events st4 @ [PrefetchScheduled [c], TimerCancelled, Play b, Send (NowPlaying b)]\<rparr>)"
    using play_next_cons [of st4 b "[c]" h env None
        "st4\<lparr>queue := [c], current_song := Some b, last_error := None,
           events := events st4 @ [PrefetchScheduled [c], TimerCancelled, Play b, Send (NowPlaying b)]\<rparr>"]
      q4 v4 try_play_plays [OF pb ab]
    by simp
  show ?thesis unfolding 1 2 by (simp add: st4_def)
qed

text \<open>
  Claim C8, as the code has it. With a voice client, a \<open>play_next\<close> that returns without
  an exception never stalls: either a song has been started and announced, or the queue
  is empty. On a queue of three songs whose head fails entirely (streaming and the
  downloader both fail), when the error message for the head is delivered to the channel
  and the second song streams, plays and is announced: the failure of the head is
  reported, the second song is the current song and is playing, and the queue ends with
  one song, the former third. The song that plays has left the queue.
\<close>

theorem failed_head_is_reported_and_next_song_plays:
  "(voice_client st \<noteq> None \<and> \<not> fst (play_next env st) \<longrightarrow>
      queue (snd (play_next env st)) = []
      \<or> (\<exists>s pre. events (snd (play_next env st)) = pre @ [Play s, Send (NowPlaying s)]))
   \<and> (voice_client st \<noteq> None \<and> queue st = [a, b, c]
        \<and> fails_entirely (env (webpage_url a)) \<and> report_ok (env (webpage_url a))
        \<and> streams_and_plays (env (webpage_url b)) \<and> announce_ok (env (webpage_url b)) \<longrightarrow>
      play_next env st = (False, st\<lparr>current_song := Some b, queue := [c], last_error := None,
        events := events st @ [PrefetchScheduled [b, c], Send (CouldNotPlay (title a) BothFailed),
          PrefetchScheduled [c], TimerCancelled, Play b, Send (NowPlaying b)]\<rparr>))"
  using play_next_never_stalls [of st env] play_next_skips_failed_head [of st a b c env]
  by blast

lemma ex_env_a: "fails_entirely (ex_env (webpage_url song_a)) \<and> report_ok (ex_env (webpage_url song_a))"
  by (simp add: ex_env_def song_a_def broken_def fails_entirely_def stream_fails_def)

lemma ex_env_b:
  "streams_and_plays (ex_env (webpage_url song_b)) \<and> announce_ok (ex_env (webpage_url song_b))"
  by (simp add: ex_env_def song_b_def streams_and_plays_def stream_fails_def)

text \<open>
  The theorem on the queue of songs A, B and C, where A cannot be played and every message
  is delivered.
\<close>

theorem failed_head_is_reported_and_next_song_plays_witness:
  "voice_client three_queued \<noteq> None \<and> queue three_queued = [song_a, song_b, song_c]
   \<and> fails_entirely (ex_env (webpage_url song_a)) \<and> report_ok (ex_env (webpage_url song_a))
   \<and> streams_and_plays (ex_env (webpage_url song_b)) \<and> announce_ok (ex_env (webpage_url song_b))
   \<and> \<not> fst (play_next ex_env three_queued)
   \<and> queue (snd (play_next ex_env three_queued)) = [song_c]
   \<and> current_song (snd (play_next ex_env three_queued)) = Some song_b
   \<and> events (snd (play_next ex_env three_queued))
       = [PrefetchScheduled [song_b, song_c], Send (CouldNotPlay ''Song A'' BothFailed),
          PrefetchScheduled [song_c], TimerCancelled, Play song_b, Send (NowPlaying song_b)]"
  using failed_head_is_reported_and_next_song_plays
    [of three_queued ex_env song_a song_b song_c] ex_env_a ex_env_b
  by (simp add: three_queued_def init_voice_state_def) (simp add: song_a_def)

text \<open>
  Claim C8 as stated fails: the head of a queue of three fails entirely, the error is
  reported, playback moves on to the former second song, and the queue then holds one
  song, not two.
\<close>

theorem drained_queue_holds_one_item:
  "length (queue three_queued) = 3
   \<and> fails_entirely (ex_env (webpage_url (hd (queue three_queued))))
   \<and> Send (CouldNotPlay ''Song A'' BothFailed) \<in> set (events (snd (play_next ex_env three_queued)))
   \<and> current_song (snd (play_next ex_env three_queued)) = Some song_b
   \<and> length (queue (snd (play_next ex_env three_queued))) = 1"
  using ex_env_a ex_env_b
    play_next_skips_failed_head [of three_queued song_a song_b song_c ex_env]
  by (simp add: three_queued_def init_voice_state_def) (simp add: song_a_def)

text \<open>
  When the channel refuses the error message, the send of line 134 raises inside the
  handler and \<open>play_next\<close> ends there: the head has been popped, the other two songs stay
  queued and nothing plays.
\<close>

lemma unreported_failure_ends_play_next:
  "play_next muted_env three_queued
     = (True, three_queued\<lparr>queue := [song_b, song_c], last_error := Some BothFailed,
          events := [PrefetchScheduled [song_b, song_c]]\<rparr>)"
proof -
  have f: "fails_entirely (muted_env (webpage_url song_a))"
    using ex_env_a by (simp add: muted_env_def fails_entirely_def stream_fails_def)
  have r: "\<not> report_ok (muted_env (webpage_url song_a))" by (simp add: muted_env_def)
  show ?thesis
    using play_next_cons [of three_queued song_a "[song_b, song_c]" good_handle muted_env
        "Some BothFailed"
        "three_queued\<lparr>queue := [song_b, song_c],
           events := events three_queued @ [PrefetchScheduled (take 3 [song_b, song_c])]\<rparr>"]
      r try_play_fails [OF f]
    by (simp add: three_queued_def init_voice_state_def)
qed

subsection \<open>A full queue\<close>

lemma replies_reply:
  "replies (events (reply reply_ok m st))
     = replies (events st) @ (if reply_ok m then [m] else if reply_ok ErrorProcessing then [ErrorProcessing] else [])"
  by (simp add: reply_def on_error_def replies_def)

lemma replies_on_error:
  "replies (events (on_error reply_ok st))
     = replies (events st) @ (if reply_ok ErrorProcessing then [ErrorProcessing] else [])"
  by (simp add: on_error_def replies_def)

lemma queue_reply: "queue (reply reply_ok m st) = queue st"
  by (simp add: reply_def on_error_def)

lemma queue_on_error: "queue (on_error reply_ok st) = queue st"
  by (simp add: on_error_def)

text \<open>
  Claim C1, as the code has it. When the queue holds \<open>MAX_QUEUE_SIZE\<close> songs and a request
  resolves to a song with a usable URL, the append discards the song at the head of the
  queue and puts the new song at the end, so that the queue holds \<open>MAX_QUEUE_SIZE\<close> songs
  again. When something is playing the queue stays so, and the reply is the ordinary one,
  that the song was added to the queue. When nothing is playing, \<open>play_next\<close> runs on that
  queue and leaves a suffix of it (a proper one when there is a voice client), and the
  reply is the ordinary one, that the song is playing. The only other reply is the general
  error reply, sent when a send raised. No reply and no exception is about a full queue.
\<close>

theorem enqueue_on_full_queue_evicts_head:
  "length (queue st) = MAX_QUEUE_SIZE \<Longrightarrow> truthy (url song) \<Longrightarrow>
     deque_append MAX_QUEUE_SIZE (queue st) song = tl (queue st) @ [song]
   \<and> length (tl (queue st) @ [song]) = MAX_QUEUE_SIZE
   \<and> queue (process_request env reply_ok (Some song) True st) = tl (queue st) @ [song]
   \<and> replies (events (process_request env reply_ok (Some song) True st))
       = replies (events st)
         @ (if reply_ok (AddedToQueue (title song)) then [AddedToQueue (title song)]
            else if reply_ok ErrorProcessing then [ErrorProcessing] else [])
   \<and> (\<exists>n. queue (process_request env reply_ok (Some song) False st)
             = drop n (tl (queue st) @ [song])
           \<and> (voice_client st \<noteq> None \<longrightarrow> 0 < n))
   \<and> replies (events (process_request env reply_ok (Some song) False st))
       = replies (events st)
         @ (if \<not> fst (play_next env (st\<lparr>queue := tl (queue st) @ [song],
                                          events := events st @ [TimerCancelled]\<rparr>))
               \<and> reply_ok (Playing (title song))
            then [Playing (title song)]
            else if reply_ok ErrorProcessing then [ErrorProcessing] else [])"
proof -
  assume l: "length (queue st) = MAX_QUEUE_SIZE" and t: "truthy (url song)"
  have ne: "queue st \<noteq> []" using l by (auto simp: MAX_QUEUE_SIZE_def)
  have 1: "deque_append MAX_QUEUE_SIZE (queue st) song = tl (queue st) @ [song]"
    using l ne by (simp add: deque_append_def Let_def)
  have 2: "length (tl (queue st) @ [song]) = MAX_QUEUE_SIZE"
    using l ne by (cases "queue st") simp_all
  define st1 where "st1 = st\<lparr>queue := tl (queue st) @ [song],
      events := events st @ [TimerCancelled]\<rparr>"
  have pt: "process_request env reply_ok (Some song) True st
      = reply reply_ok (AddedToQueue (title song))
          (st1\<lparr>events := events st1 @ [PrefetchScheduled (take 3 (queue st1))]\<rparr>)"
    using t by (simp add: process_request_def 1 Let_def st1_def)
  have 3: "queue (process_request env reply_ok (Some song) True st) = tl (queue st) @ [song]"
    unfolding pt by (simp add: queue_reply st1_def)
  have 4: "replies (events (process_request env reply_ok (Some song) True st))
       = replies (events st)
         @ (if reply_ok (AddedToQueue (title song)) then [AddedToQueue (title song)]
            else if reply_ok ErrorProcessing then [ErrorProcessing] else [])"
    unfolding pt replies_reply by (simp add: st1_def replies_def)
  obtain raised st2 where pn: "play_next env st1 = (raised, st2)"
    by (cases "play_next env st1")
  have pf: "process_request env reply_ok (Some song) False st
      = (if raised then on_error reply_ok st2 else reply reply_ok (Playing (title song)) st2)"
    using t pn by (simp add: process_request_def 1 Let_def st1_def [symmetric])
  have q2: "queue (process_request env reply_ok (Some song) False st) = queue st2"
    unfolding pf by (simp add: queue_reply queue_on_error)
  obtain n where n: "queue (snd (play_next env st1)) = drop n (queue st1)"
    and n0: "voice_client st1 \<noteq> None \<and> queue st1 \<noteq> [] \<longrightarrow> 0 < n"
    using play_next_queue_suffix [of env st1] by blast
  have 5: "\<exists>n. queue (process_request env reply_ok (Some song) False st)
             = drop n (tl (queue st) @ [song])
           \<and> (voice_client st \<noteq> None \<longrightarrow> 0 < n)"
    using n n0 q2 pn by (intro exI [of _ n]) (simp add: st1_def)
  have r2: "replies (events st2) = replies (events st)"
    using play_next_replies [of env st1] pn by (simp add: st1_def replies_def)
  have 6: "replies (events (process_request env reply_ok (Some song) False st))
       = replies (events st)
         @ (if \<not> fst (play_next env st1) \<and> reply_ok (Playing (title song))
            then [Playing (title song)]
            else if reply_ok ErrorProcessing then [ErrorProcessing] else [])"
    unfolding pf using pn r2 by (simp add: replies_reply replies_on_error)
  show ?thesis
    by (intro conjI) (rule 1, rule 2, rule 3, rule 4, rule 5, rule 6 [unfolded st1_def])
qed


lemma replicate_99: "replicate 99 x = x # replicate 98 x"
  using replicate_Suc [of 98 x] by simp

lemma replicate_3: "replicate 3 x = [x, x, x]"
  by (simp add: numeral_3_eq_3)

lemma full_queue_length: "length (queue full_queue) = MAX_QUEUE_SIZE"
  by (simp add: full_queue_def init_voice_state_def MAX_QUEUE_SIZE_def)

lemma full_queue_playing:
  "process_request ex_env always_delivered (Some song_c) True full_queue
     = full_queue\<lparr>queue := replicate 99 song_b @ [song_c],
         events := [TimerCancelled, PrefetchScheduled [song_b, song_b, song_b],
           Reply (AddedToQueue ''Song C'')]\<rparr>"
  by (simp add: full_queue_def init_voice_state_def MAX_QUEUE_SIZE_def process_request_def
      deque_append_def Let_def song_c_def reply_def always_delivered_def replicate_3)

lemma full_queue_not_playing:
  "process_request ex_env always_delivered (Some song_c) False full_queue
     = full_queue\<lparr>queue := replicate 98 song_b @ [song_c], current_song := Some song_b,
         last_error := None,
         events := [TimerCancelled, PrefetchScheduled [song_b, song_b, song_b], TimerCancelled,
           Play song_b, Send (NowPlaying song_b), Reply (Playing ''Song C'')]\<rparr>"
proof -
  define st1 where "st1 = full_queue\<lparr>queue := replicate 99 song_b @ [song_c],
      events := [TimerCancelled]\<rparr>"
  have b: "streams_and_plays (ex_env (webpage_url song_b))"
    "announce_ok (ex_env (webpage_url song_b))"
    by (simp_all add: ex_env_def song_b_def streams_and_plays_def stream_fails_def)
  have q1: "queue st1 = song_b # (replicate 98 song_b @ [song_c])"
    by (simp add: st1_def replicate_99)
  have v1: "voice_client st1 = Some good_handle"
    by (simp add: st1_def full_queue_def init_voice_state_def)
  have pn: "play_next ex_env st1
      = (False, st1\<lparr>queue := replicate 98 song_b @ [song_c], current_song := Some song_b,
           last_error := None,
           events := [TimerCancelled, PrefetchScheduled [song_b, song_b, song_b], TimerCancelled,
             Play song_b, Send (NowPlaying song_b)]\<rparr>)"
    using play_next_cons [of st1 song_b "replicate 98 song_b @ [song_c]" good_handle ex_env None
        "st1\<lparr>queue := replicate 98 song_b @ [song_c], current_song := Some song_b,
           last_error := None,
           events := [TimerCancelled, PrefetchScheduled [song_b, song_b, song_b], TimerCancelled,
             Play song_b, Send (NowPlaying song_b)]\<rparr>"]
      q1 v1 try_play_plays [OF b]
    by (simp add: st1_def replicate_3)
  have d: "deque_append MAX_QUEUE_SIZE (queue full_queue) song_c = replicate 99 song_b @ [song_c]"
    by (simp add: full_queue_def init_voice_state_def MAX_QUEUE_SIZE_def deque_append_def Let_def)
  have tc: "truthy (url song_c)" and tt: "title song_c = ''Song C''"
    by (simp_all add: song_c_def)
  have ev: "events full_queue = []" by (simp add: full_queue_def init_voice_state_def)
  have "process_request ex_env always_delivered (Some song_c) False full_queue
      = reply always_delivered (Playing (title song_c)) (snd (play_next ex_env st1))"
    using pn by (simp add: process_request_def tc d Let_def st1_def [symmetric] ev)
  then show ?thesis
    unfolding pn
    by (simp add: reply_def always_delivered_def st1_def tt ev)
qed

text \<open>
  The theorem on a queue of song A followed by 99 copies of song B, with something playing
  and with nothing playing.
\<close>

theorem enqueue_on_full_queue_evicts_head_witness:
  "length (queue full_queue) = MAX_QUEUE_SIZE \<and> truthy (url song_c)
   \<and> deque_append MAX_QUEUE_SIZE (queue full_queue) song_c = replicate 99 song_b @ [song_c]
   \<and> queue (process_request ex_env always_delivered (Some song_c) True full_queue)
       = replicate 99 song_b @ [song_c]
   \<and> replies (events (process_request ex_env always_delivered (Some song_c) True full_queue))
       = [AddedToQueue ''Song C'']
   \<and> length (queue (process_request ex_env always_delivered (Some song_c) False full_queue)) = 99
   \<and> replies (events (process_request ex_env always_delivered (Some song_c) False full_queue))
       = [Playing ''Song C'']"
  using enqueue_on_full_queue_evicts_head [of full_queue song_c ex_env always_delivered]
    full_queue_length
  by (simp add: full_queue_playing full_queue_not_playing replies_def)
    (simp add: song_c_def full_queue_def init_voice_state_def)

text \<open>
  Claim C1 as stated fails: enqueueing song C on that full queue discards song A at its
  head, and the reply is the ordinary one.
\<close>

theorem full_queue_enqueue_drops_oldest_silently:
  "length (queue full_queue) = MAX_QUEUE_SIZE
   \<and> hd (queue full_queue) = song_a
   \<and> queue (process_request ex_env always_delivered (Some song_c) True full_queue)
       = replicate 99 song_b @ [song_c]
   \<and> replies (events (process_request ex_env always_delivered (Some song_c) True full_queue))
       = [AddedToQueue ''Song C'']"
  using full_queue_length
  by (simp add: full_queue_playing replies_def) (simp add: full_queue_def init_voice_state_def)

end
